theory Spec2Isabelle
  imports Main "HOL-Library.Sublist"
begin

section \<open>Strings and paths\<close>

text \<open>
  The uploader reads three things of a local file path: its final component
  (\<^verbatim>\<open>Path.name\<close>), that component without its last suffix (\<^verbatim>\<open>Path.stem\<close>), and the
  file behind it. A path is modelled by the list of its components below the anchor.
  Strings are the UTF-8 bytes of Python's strings: splitting at a dot or a slash and
  replacing a hyphen are the same on bytes as on characters, since these are ASCII.
\<close>

datatype path = Path (parts: "string list")

text \<open>\<^verbatim>\<open>str.split(sep)\<close> for a one-character separator: never empty, one more piece
  than there are separators.\<close>

fun py_split :: "char \<Rightarrow> string \<Rightarrow> string list" where
  "py_split sep [] = [[]]"
| "py_split sep (c # cs) =
     (if c = sep then [] # py_split sep cs
      else (case py_split sep cs of
              [] \<Rightarrow> [[c]]
            | w # ws \<Rightarrow> (c # w) # ws))"

text \<open>\<^verbatim>\<open>str.rfind(c)\<close>: the highest index of \<open>c\<close>, or \<open>-1\<close>.\<close>

definition rfind :: "string \<Rightarrow> char \<Rightarrow> int" where
  "rfind s c =
     (if c \<in> set s
      then int (length s) - 1 - int (length (takeWhile (\<lambda>x. x \<noteq> c) (rev s)))
      else - 1)"

text \<open>\<^verbatim>\<open>PurePath.name\<close>: the final component, the empty string when there is none.\<close>

definition path_name :: "path \<Rightarrow> string" where
  "path_name p = (case rev (parts p) of [] \<Rightarrow> [] | n # _ \<Rightarrow> n)"

text \<open>\<^verbatim>\<open>PurePath.stem\<close>: the name up to its last dot, when that dot is neither the first
  nor the last character.\<close>

definition path_stem :: "path \<Rightarrow> string" where
  "path_stem p =
     (let name = path_name p; i = rfind name CHR ''.''
      in if 0 < i \<and> i < int (length name) - 1 then take (nat i) name else name)"

text \<open>
  \<^verbatim>\<open>str.lower\<close> follows the Unicode tables of the interpreter, which are not part of
  the program. On ASCII text it is the map below. Beyond ASCII it is a parameter of the
  model: any function that agrees with that map on ASCII text and puts no full stop
  where there was none, as lower-casing does.
\<close>

definition ascii_lower_char :: "char \<Rightarrow> char" where
  "ascii_lower_char c =
     (let n = (of_char c :: nat)
      in if 65 \<le> n \<and> n \<le> 90 then char_of (n + 32) else c)"

definition ascii_lower :: "string \<Rightarrow> string" where
  "ascii_lower s = map ascii_lower_char s"

definition ascii :: "string \<Rightarrow> bool" where
  "ascii s = list_all (\<lambda>c. (of_char c :: nat) < 128) s"

typedef lowering =
  "{f :: string \<Rightarrow> string.
      (\<forall>s. ascii s \<longrightarrow> f s = ascii_lower s)
    \<and> (\<forall>s. CHR ''.'' \<notin> set s \<longrightarrow> CHR ''.'' \<notin> set (f s))}"
  morphisms lower_with Abs_lowering
proof
  have l: "ascii_lower_char c \<noteq> CHR ''.''" if "c \<noteq> CHR ''.''" for c
  proof (cases "65 \<le> (of_char c :: nat) \<and> (of_char c :: nat) \<le> 90")
    case True
    then have "(of_char (char_of (of_char c + 32 :: nat) :: char) :: nat) = of_char c + 32"
      by (simp add: of_char_of)
    with True have "(of_char (ascii_lower_char c) :: nat) \<noteq> 46"
      by (simp add: ascii_lower_char_def Let_def del: of_char_of)
    then show ?thesis by auto
  next
    case False
    with that show ?thesis by (auto simp: ascii_lower_char_def Let_def)
  qed
  have "CHR ''.'' \<notin> set (ascii_lower s)" if "CHR ''.'' \<notin> set s" for s
  proof
    assume "CHR ''.'' \<in> set (ascii_lower s)"
    then obtain c where c: "c \<in> set s" and e: "ascii_lower_char c = CHR ''.''"
      unfolding ascii_lower_def by auto
    from c that have "c \<noteq> CHR ''.''" by blast
    from l [OF this] e show False by simp
  qed
  then show "ascii_lower \<in> {f. (\<forall>s. ascii s \<longrightarrow> f s = ascii_lower s)
    \<and> (\<forall>s. CHR ''.'' \<notin> set s \<longrightarrow> CHR ''.'' \<notin> set (f s))}"
    by simp
qed

text \<open>The lower-casing that leaves every byte beyond ASCII as it is.\<close>

definition ascii_lowering :: lowering where
  "ascii_lowering = Abs_lowering ascii_lower"

text \<open>\<^verbatim>\<open>s.replace(a, b)\<close> for one-character \<open>a\<close> and \<open>b\<close>.\<close>

definition replace_char :: "char \<Rightarrow> char \<Rightarrow> string \<Rightarrow> string" where
  "replace_char a b s = map (\<lambda>c. if c = a then b else c) s"

datatype api_error = ApiError (code: string) (message: string)

datatype py_error =
    RuntimeError_body api_error
  | RuntimeError api_error
  | KeyError string
  | TypeError
  | IndexError

text \<open>
  The emoji name of a file, line 335 of the source:
  \<^verbatim>\<open>emoji_path.stem.split(".")[0].lower().replace("-", "_")\<close>,
  with the lower-casing \<open>L\<close> of the interpreter. The subscript \<^verbatim>\<open>[0]\<close> raises on an
  empty list.
\<close>

definition emoji_name_of :: "lowering \<Rightarrow> path \<Rightarrow> py_error + string" where
  "emoji_name_of L emoji_path =
     (case py_split CHR ''.'' (path_stem emoji_path) of
        [] \<Rightarrow> Inl IndexError
      | w # _ \<Rightarrow> Inr (replace_char CHR ''-'' CHR ''_'' (lower_with L w)))"

section \<open>The remote service and the log of a run\<close>

text \<open>
  Every reply of the service is parsed JSON. The uploader tells two shapes apart: an
  object with an \<^verbatim>\<open>"error"\<close> member, of which it reads the \<^verbatim>\<open>"code"\<close>, and anything
  else, of which it reads the members below. Transport failures (time-outs, broken
  connections, unreadable files) are outside the model.
\<close>

datatype 'a response = Success 'a | Error api_error

record folder =
  f_id :: string
  f_name :: string
  f_parentId :: "string option"

record emoji =
  e_name :: string
  e_id :: string
  e_fileId :: string

record drive_file =
  df_id :: string
  df_name :: string

text \<open>The six requests the uploader sends, with the fields it sets.\<close>

datatype request =
    Emojis
  | EmojiAdd string string string string bool bool
  | DriveFolders "string option"
  | DriveFoldersShow "string option"
  | DriveFoldersCreate string "string option"
  | DriveFilesCreate path "string option" string string

datatype reply = Accepted | Refused string

datatype event = Exchange request reply | Sleep nat

text \<open>
  The uploader's surroundings: the service as a transition system on a state \<open>'s\<close> of
  its own, one transition for each request, the passing of time while the uploader
  sleeps, the table of \<^verbatim>\<open>mimetypes.guess_type\<close> and the lower-casing of \<^verbatim>\<open>str.lower\<close>.
\<close>

record 's env =
  r_emojis :: "'s \<Rightarrow> emoji list response \<times> 's"
  r_emoji_add :: "string \<Rightarrow> string \<Rightarrow> string \<Rightarrow> string \<Rightarrow> bool \<Rightarrow> bool
                  \<Rightarrow> 's \<Rightarrow> emoji response \<times> 's"
  r_folders :: "string option \<Rightarrow> 's \<Rightarrow> folder list response \<times> 's"
  r_folders_show :: "string option \<Rightarrow> 's \<Rightarrow> folder response \<times> 's"
  r_folders_create :: "string \<Rightarrow> string option \<Rightarrow> 's \<Rightarrow> folder response \<times> 's"
  r_files_create :: "path \<Rightarrow> string option \<Rightarrow> string \<Rightarrow> string
                     \<Rightarrow> 's \<Rightarrow> drive_file response \<times> 's"
  r_elapse :: "nat \<Rightarrow> 's \<Rightarrow> 's"
  guess_type :: "string \<Rightarrow> string option"
  str_lower :: lowering

text \<open>The state a run acts on: the service's state and the log of what the run did.\<close>

record 's world =
  remote :: 's
  trace :: "event list"

definition reply_of :: "'a response \<Rightarrow> reply" where
  "reply_of data = (case data of Success _ \<Rightarrow> Accepted | Error e \<Rightarrow> Refused (code e))"

definition exchange ::
  "request \<Rightarrow> ('s \<Rightarrow> 'a response \<times> 's) \<Rightarrow> 's world \<Rightarrow> 'a response \<times> 's world" where
  "exchange rq step w =
     (case step (remote w) of
        (data, s') \<Rightarrow> (data, \<lparr>remote = s', trace = trace w @ [Exchange rq (reply_of data)]\<rparr>))"

definition sleep :: "'s env \<Rightarrow> nat \<Rightarrow> 's world \<Rightarrow> 's world" where
  "sleep env n w = \<lparr>remote = r_elapse env n (remote w), trace = trace w @ [Sleep n]\<rparr>"

definition RATE_LIMIT_WAIT :: nat where
  "RATE_LIMIT_WAIT = 60"

definition rate_limited :: "'a response \<Rightarrow> bool" where
  "rate_limited data =
     (case data of Success _ \<Rightarrow> False | Error e \<Rightarrow> code e = ''RATE_LIMIT_EXCEEDED'')"

section \<open>The API wrappers\<close>

text \<open>\<^verbatim>\<open>json.loads(response.text)["emojis"]\<close>: an error object has no such member.\<close>

definition emojis_get_current_list ::
  "'s env \<Rightarrow> 's world \<Rightarrow> (py_error + emoji list) \<times> 's world" where
  "emojis_get_current_list env w =
     (case exchange Emojis (r_emojis env) w of
        (Success es, w1) \<Rightarrow> (Inr es, w1)
      | (Error e, w1) \<Rightarrow> (Inl (KeyError ''emojis''), w1))"

text \<open>One request, no retry; the reply is returned as it is.\<close>

definition emoji_add ::
  "'s env \<Rightarrow> string \<Rightarrow> string \<Rightarrow> string \<Rightarrow> string \<Rightarrow> bool \<Rightarrow> bool
     \<Rightarrow> 's world \<Rightarrow> emoji response \<times> 's world" where
  "emoji_add env emoji_name file_id category license sensitive local_only w =
     exchange (EmojiAdd emoji_name file_id category license sensitive local_only)
       (r_emoji_add env emoji_name file_id category license sensitive local_only) w"

definition drive_get_folders ::
  "'s env \<Rightarrow> string option \<Rightarrow> 's world \<Rightarrow> folder list response \<times> 's world" where
  "drive_get_folders env folder_id w =
     exchange (DriveFolders folder_id) (r_folders env folder_id) w"

definition drive_show_folders ::
  "'s env \<Rightarrow> string option \<Rightarrow> 's world \<Rightarrow> folder response \<times> 's world" where
  "drive_show_folders env folder_id w =
     exchange (DriveFoldersShow folder_id) (r_folders_show env folder_id) w"

text \<open>
  The loop of lines 205 to 225: a rate-limit reply sleeps and sends the request
  again; any other error raises \<^verbatim>\<open>RuntimeError(data)\<close>; anything else is returned.
  The loop has no bound, so the function is partial: \<open>None\<close> is a run that never
  returns.
\<close>

partial_function (option) create_drive_folder ::
  "'s env \<Rightarrow> string \<Rightarrow> string option \<Rightarrow> 's world
     \<Rightarrow> ((py_error + folder) \<times> 's world) option" where
  "create_drive_folder env name parent_id w =
     (case exchange (DriveFoldersCreate name parent_id)
             (r_folders_create env name parent_id) w of
        (Error e, w1) \<Rightarrow>
          if code e = ''RATE_LIMIT_EXCEEDED''
          then create_drive_folder env name parent_id (sleep env RATE_LIMIT_WAIT w1)
          else Some (Inl (RuntimeError_body e), w1)
      | (Success data, w1) \<Rightarrow> Some (Inr data, w1))"

text \<open>The inner loop of lines 245 to 249: the first folder of that name.\<close>

fun find_folder :: "string \<Rightarrow> folder list \<Rightarrow> folder option" where
  "find_folder folder [] = None"
| "find_folder folder (f # fs) =
     (if f_name f = folder then Some f else find_folder folder fs)"

text \<open>
  The loop of lines 240 to 253 over the segments, on \<open>parent_id\<close> and \<open>folder_data\<close>.
  \<^verbatim>\<open>drive_get_folders\<close> does not look for an error: iterating an error object gives its
  keys, and subscripting a key with \<^verbatim>\<open>"name"\<close> raises a \<^verbatim>\<open>TypeError\<close>.
\<close>

fun resolve_segments ::
  "'s env \<Rightarrow> string list \<Rightarrow> string option \<Rightarrow> folder option \<Rightarrow> 's world
     \<Rightarrow> ((py_error + string option \<times> folder option) \<times> 's world) option" where
  "resolve_segments env [] parent_id folder_data w = Some (Inr (parent_id, folder_data), w)"
| "resolve_segments env (folder # rest) parent_id folder_data w =
     (case drive_get_folders env parent_id w of
        (Error e, w1) \<Rightarrow> Some (Inl TypeError, w1)
      | (Success folders, w1) \<Rightarrow>
          (case find_folder folder folders of
             Some f \<Rightarrow> resolve_segments env rest (Some (f_id f)) folder_data w1
           | None \<Rightarrow>
               (case create_drive_folder env folder parent_id w1 of
                  None \<Rightarrow> None
                | Some (Inl err, w2) \<Rightarrow> Some (Inl err, w2)
                | Some (Inr data, w2) \<Rightarrow>
                    resolve_segments env rest (Some (f_id data)) (Some data) w2)))"

text \<open>
  \<^verbatim>\<open>create_drive_folder_path\<close>, lines 228 to 259. The value returned is a parsed reply:
  that of the last creation, or whatever \<^verbatim>\<open>drive_show_folders\<close> got.
\<close>

definition create_drive_folder_path ::
  "'s env \<Rightarrow> string \<Rightarrow> 's world \<Rightarrow> ((py_error + folder response) \<times> 's world) option" where
  "create_drive_folder_path env path w =
     (case resolve_segments env (py_split CHR ''/'' path) None None w of
        None \<Rightarrow> None
      | Some (Inl err, w1) \<Rightarrow> Some (Inl err, w1)
      | Some (Inr (parent_id, Some folder_data), w1) \<Rightarrow> Some (Inr (Success folder_data), w1)
      | Some (Inr (parent_id, None), w1) \<Rightarrow>
          (case drive_show_folders env parent_id w1 of
             (data, w2) \<Rightarrow> Some (Inr data, w2)))"

text \<open>The loop of lines 279 to 302; it raises \<^verbatim>\<open>RuntimeError(data["error"])\<close>.\<close>

partial_function (option) upload_attempts ::
  "'s env \<Rightarrow> path \<Rightarrow> string option \<Rightarrow> string \<Rightarrow> string \<Rightarrow> 's world
     \<Rightarrow> ((py_error + drive_file) \<times> 's world) option" where
  "upload_attempts env file_path folder_id file_name mime_type w =
     (case exchange (DriveFilesCreate file_path folder_id file_name mime_type)
             (r_files_create env file_path folder_id file_name mime_type) w of
        (Error e, w1) \<Rightarrow>
          if code e = ''RATE_LIMIT_EXCEEDED''
          then upload_attempts env file_path folder_id file_name mime_type
                 (sleep env RATE_LIMIT_WAIT w1)
          else Some (Inl (RuntimeError e), w1)
      | (Success data, w1) \<Rightarrow> Some (Inr data, w1))"

definition mime_type_of :: "'s env \<Rightarrow> string \<Rightarrow> string" where
  "mime_type_of env file_name =
     (case guess_type env file_name of
        None \<Rightarrow> ''application/octet-stream''
      | Some mime_type \<Rightarrow> mime_type)"

definition drive_upload_file ::
  "'s env \<Rightarrow> path \<Rightarrow> string option \<Rightarrow> string \<Rightarrow> 's world
     \<Rightarrow> ((py_error + drive_file) \<times> 's world) option" where
  "drive_upload_file env file_path folder_id file_name w =
     upload_attempts env file_path folder_id file_name (mime_type_of env file_name) w"

section \<open>The run\<close>

record options =
  drive_path :: string
  category :: string
  license :: string
  sensitive :: bool
  local_only :: bool

text \<open>The counters of \<^verbatim>\<open>start\<close> and the world it acts on.\<close>

record 's run =
  success_count :: nat
  skipped_count :: nat
  world :: "'s world"

text \<open>\<^verbatim>\<open>{emoji["name"]: emoji for emoji in current_emojis}\<close>: a later entry wins.\<close>

definition emoji_dict_of :: "emoji list \<Rightarrow> (string \<rightharpoonup> emoji)" where
  "emoji_dict_of current_emojis = foldl (\<lambda>m e. m(e_name e \<mapsto> e)) Map.empty current_emojis"

text \<open>
  The body of the loop of lines 333 to 376 for one file. The result is the exception
  raised, if any, and the counters and the world as the body leaves them.
\<close>

definition upload_emoji ::
  "'s env \<Rightarrow> options \<Rightarrow> (string \<rightharpoonup> emoji) \<Rightarrow> string option \<Rightarrow> path \<Rightarrow> 's run
     \<Rightarrow> (py_error option \<times> 's run) option" where
  "upload_emoji env opts emoji_dict folder_id emoji_path st =
     (case emoji_name_of (str_lower env) emoji_path of
        Inl err \<Rightarrow> Some (Some err, st)
      | Inr emoji_name \<Rightarrow>
          if emoji_dict emoji_name \<noteq> None
          then Some (None, st\<lparr>skipped_count := skipped_count st + 1\<rparr>)
          else
            (case drive_upload_file env emoji_path folder_id (path_name emoji_path) (world st) of
               None \<Rightarrow> None
             | Some (Inl err, w1) \<Rightarrow> Some (Some err, st\<lparr>world := w1\<rparr>)
             | Some (Inr file_data, w1) \<Rightarrow>
                 (case emoji_add env emoji_name (df_id file_data) (category opts)
                         (license opts) (sensitive opts) (local_only opts) w1 of
                    (Error e, w2) \<Rightarrow>
                      if code e = ''DUPLICATE_NAME''
                      then Some (None, st\<lparr>skipped_count := skipped_count st + 1, world := w2\<rparr>)
                      else Some (Some (RuntimeError e), st\<lparr>world := w2\<rparr>)
                  | (Success emoji_data, w2) \<Rightarrow>
                      Some (None, st\<lparr>success_count := success_count st + 1, world := w2\<rparr>))))"

fun upload_emojis ::
  "'s env \<Rightarrow> options \<Rightarrow> (string \<rightharpoonup> emoji) \<Rightarrow> string option \<Rightarrow> path list \<Rightarrow> 's run
     \<Rightarrow> (py_error option \<times> 's run) option" where
  "upload_emojis env opts emoji_dict folder_id [] st = Some (None, st)"
| "upload_emojis env opts emoji_dict folder_id (emoji_path # rest) st =
     (case upload_emoji env opts emoji_dict folder_id emoji_path st of
        None \<Rightarrow> None
      | Some (Some err, st1) \<Rightarrow> Some (Some err, st1)
      | Some (None, st1) \<Rightarrow> upload_emojis env opts emoji_dict folder_id rest st1)"

text \<open>What the closing log lines report.\<close>

record summary =
  total :: nat
  succeeded :: nat
  skipped :: nat

text \<open>
  Lines 326 to 330 of \<^verbatim>\<open>start\<close>: the folder the files go to. \<^verbatim>\<open>folder_data["id"]\<close>
  raises a \<^verbatim>\<open>KeyError\<close> on an error object, which \<^verbatim>\<open>drive_show_folders\<close> may have
  returned.
\<close>

definition target_folder ::
  "'s env \<Rightarrow> options \<Rightarrow> 's world \<Rightarrow> ((py_error + string option) \<times> 's world) option" where
  "target_folder env opts w =
     (if drive_path opts \<noteq> []
      then (case create_drive_folder_path env (drive_path opts) w of
              None \<Rightarrow> None
            | Some (Inl err, w1) \<Rightarrow> Some (Inl err, w1)
            | Some (Inr (Error e), w1) \<Rightarrow> Some (Inl (KeyError ''id''), w1)
            | Some (Inr (Success folder_data), w1) \<Rightarrow> Some (Inr (Some (f_id folder_data)), w1))
      else Some (Inr None, w))"

text \<open>
  \<^verbatim>\<open>start\<close>, lines 308 to 385. The result is the exception that ended the run or the
  numbers of the closing log lines, with the counters and the world as the run left
  them.
\<close>

definition start ::
  "'s env \<Rightarrow> path list \<Rightarrow> options \<Rightarrow> 's world
     \<Rightarrow> ((py_error + summary) \<times> 's run) option" where
  "start env emoji_path_list opts w =
     (let total_emojis = length emoji_path_list;
          st = \<lparr>success_count = 0, skipped_count = 0, world = w\<rparr>
      in case emojis_get_current_list env w of
           (Inl err, w1) \<Rightarrow> Some (Inl err, st\<lparr>world := w1\<rparr>)
         | (Inr current_emojis, w1) \<Rightarrow>
             (case target_folder env opts w1 of
                None \<Rightarrow> None
              | Some (Inl err, w2) \<Rightarrow> Some (Inl err, st\<lparr>world := w2\<rparr>)
              | Some (Inr folder_id, w2) \<Rightarrow>
                  (case upload_emojis env opts (emoji_dict_of current_emojis) folder_id
                          emoji_path_list (st\<lparr>world := w2\<rparr>) of
                     None \<Rightarrow> None
                   | Some (Some err, st1) \<Rightarrow> Some (Inl err, st1)
                   | Some (None, st1) \<Rightarrow>
                       Some (Inr \<lparr>total = total_emojis, succeeded = success_count st1,
                                  skipped = skipped_count st1\<rparr>, st1))))"

section \<open>Describing what the service does\<close>

text \<open>
  \<open>refusals step wait n s\<close> is the state of the service after it has answered the
  same request \<open>n\<close> times in a row with a rate-limit error, the uploader waiting after
  each; \<open>None\<close> when it does not answer so. \<open>answered step wait s n\<close> is the first
  reply that is not a rate-limit error, when it comes after exactly \<open>n\<close> refusals.
\<close>

fun refusals :: "('s \<Rightarrow> 'a response \<times> 's) \<Rightarrow> ('s \<Rightarrow> 's) \<Rightarrow> nat \<Rightarrow> 's \<Rightarrow> 's option" where
  "refusals step wait 0 s = Some s"
| "refusals step wait (Suc n) s =
     (case step s of
        (Error e, s') \<Rightarrow>
          if code e = ''RATE_LIMIT_EXCEEDED'' then refusals step wait n (wait s') else None
      | (Success _, _) \<Rightarrow> None)"

definition answered ::
  "('s \<Rightarrow> 'a response \<times> 's) \<Rightarrow> ('s \<Rightarrow> 's) \<Rightarrow> 's \<Rightarrow> nat \<Rightarrow> ('a response \<times> 's) option" where
  "answered step wait s0 n =
     (case refusals step wait n s0 of
        None \<Rightarrow> None
      | Some s \<Rightarrow>
          (case step s of (data, s') \<Rightarrow> if rate_limited data then None else Some (data, s')))"

text \<open>The log of \<open>n\<close> refused attempts, and the world after the attempt that settles.\<close>

definition retry_events :: "request \<Rightarrow> nat \<Rightarrow> event list" where
  "retry_events rq n =
     concat (replicate n [Exchange rq (Refused ''RATE_LIMIT_EXCEEDED''), Sleep RATE_LIMIT_WAIT])"

definition settle :: "request \<Rightarrow> reply \<Rightarrow> 's \<Rightarrow> nat \<Rightarrow> 's world \<Rightarrow> 's world" where
  "settle rq r s' n w = \<lparr>remote = s', trace = trace w @ retry_events rq n @ [Exchange rq r]\<rparr>"

section \<open>Services to run the uploader against\<close>

text \<open>A service that answers from a script, one list of replies for each request.\<close>

record script =
  emojis_replies :: "emoji list response list"
  add_replies :: "emoji response list"
  folders_replies :: "folder list response list"
  show_replies :: "folder response list"
  create_replies :: "folder response list"
  upload_replies :: "drive_file response list"

definition next_reply :: "'a response list \<Rightarrow> 'a response" where
  "next_reply rs = (case rs of [] \<Rightarrow> Error (ApiError ''NO_REPLY'' []) | r # _ \<Rightarrow> r)"

definition png_or_unknown :: "string \<Rightarrow> string option" where
  "png_or_unknown file_name =
     (if drop (length file_name - 4) file_name = ''.png'' then Some ''image/png'' else None)"

definition scripted :: "script env" where
  "scripted =
     \<lparr>r_emojis = (\<lambda>s. (next_reply (emojis_replies s), s\<lparr>emojis_replies := tl (emojis_replies s)\<rparr>)),
      r_emoji_add = (\<lambda>_ _ _ _ _ _ s. (next_reply (add_replies s), s\<lparr>add_replies := tl (add_replies s)\<rparr>)),
      r_folders = (\<lambda>_ s. (next_reply (folders_replies s), s\<lparr>folders_replies := tl (folders_replies s)\<rparr>)),
      r_folders_show = (\<lambda>_ s. (next_reply (show_replies s), s\<lparr>show_replies := tl (show_replies s)\<rparr>)),
      r_folders_create = (\<lambda>_ _ s. (next_reply (create_replies s), s\<lparr>create_replies := tl (create_replies s)\<rparr>)),
      r_files_create = (\<lambda>_ _ _ _ s. (next_reply (upload_replies s), s\<lparr>upload_replies := tl (upload_replies s)\<rparr>)),
      r_elapse = (\<lambda>_ s. s),
      guess_type = png_or_unknown,
      str_lower = ascii_lowering\<rparr>"

definition silent :: script where
  "silent = \<lparr>emojis_replies = [], add_replies = [], folders_replies = [], show_replies = [],
             create_replies = [], upload_replies = []\<rparr>"

definition rate_limit :: api_error where
  "rate_limit = ApiError ''RATE_LIMIT_EXCEEDED'' ''Rate limit exceeded.''"

text \<open>A service that never lifts its rate limit.\<close>

definition busy :: "unit env" where
  "busy =
     \<lparr>r_emojis = (\<lambda>s. (Success [], s)),
      r_emoji_add = (\<lambda>_ _ _ _ _ _ s. (Error rate_limit, s)),
      r_folders = (\<lambda>_ s. (Success [], s)),
      r_folders_show = (\<lambda>_ s. (Error rate_limit, s)),
      r_folders_create = (\<lambda>_ _ s. (Error rate_limit, s)),
      r_files_create = (\<lambda>_ _ _ _ s. (Error rate_limit, s)),
      r_elapse = (\<lambda>_ s. s),
      guess_type = png_or_unknown,
      str_lower = ascii_lowering\<rparr>"

text \<open>Values the examples use.\<close>

definition folder_a :: folder where
  "folder_a = \<lparr>f_id = ''1'', f_name = ''a'', f_parentId = None\<rparr>"

definition denied :: api_error where
  "denied = ApiError ''NO_FREE_SPACE'' ''Cannot upload the file.''"

definition cat :: path where
  "cat = Path [''emojis'', ''cat.png'']"

definition dog :: path where
  "dog = Path [''emojis'', ''dog.png'']"

definition foo_bar :: path where
  "foo_bar = Path [''emojis'', ''Foo-Bar.png'']"

definition opts0 :: options where
  "opts0 = \<lparr>drive_path = [], category = ''animals'', license = ''CC0'', sensitive = False,
            local_only = False\<rparr>"

definition dog_emoji :: emoji where
  "dog_emoji = \<lparr>e_name = ''dog'', e_id = ''e1'', e_fileId = ''f0''\<rparr>"

definition cat_emoji :: emoji where
  "cat_emoji = \<lparr>e_name = ''cat'', e_id = ''e2'', e_fileId = ''f1''\<rparr>"

definition cat_file :: drive_file where
  "cat_file = \<lparr>df_id = ''f1'', df_name = ''cat.png''\<rparr>"

definition dog_file :: drive_file where
  "dog_file = \<lparr>df_id = ''f3'', df_name = ''dog.png''\<rparr>"

definition duplicate :: api_error where
  "duplicate = ApiError ''DUPLICATE_NAME'' ''Duplicate name.''"

definition fresh :: "script world \<Rightarrow> script run" where
  "fresh w = \<lparr>success_count = 0, skipped_count = 0, world = w\<rparr>"

definition upload_cat :: request where
  "upload_cat = DriveFilesCreate cat None ''cat.png'' ''image/png''"

definition add_cat :: request where
  "add_cat = EmojiAdd ''cat'' ''f1'' ''animals'' ''CC0'' False False"

definition dog_known :: "script world" where
  "dog_known = \<lparr>remote = silent\<lparr>emojis_replies := [Success [dog_emoji]],
                                   upload_replies := [Success cat_file],
                                   add_replies := [Success cat_emoji]\<rparr>, trace = []\<rparr>"

definition cat_added :: "script world" where
  "cat_added = \<lparr>remote = silent,
                trace = [Exchange Emojis Accepted, Exchange upload_cat Accepted,
                         Exchange add_cat Accepted]\<rparr>"

definition foo_file :: drive_file where
  "foo_file = \<lparr>df_id = ''f2'', df_name = ''Foo-Bar.png''\<rparr>"

section \<open>Describing folder resolution\<close>

text \<open>
  What a listing of the folders under \<open>parent_id\<close> would give for a name in the state
  \<open>s\<close> of the service: the first folder of that name, none, or an error.
\<close>

definition lookup :: "'s env \<Rightarrow> 's \<Rightarrow> string option \<Rightarrow> string \<Rightarrow> folder option response" where
  "lookup env s parent_id name =
     (case fst (r_folders env parent_id s) of
        Success folders \<Rightarrow> Success (find_folder name folders)
      | Error e \<Rightarrow> Error e)"

text \<open>
  A service that keeps its folders: listing, showing, waiting and a refused creation
  change no listing, and an accepted creation of a name that was not listed under its
  parent makes the new folder the one listed for that name there, and changes
  nothing else.
\<close>

definition faithful :: "'s env \<Rightarrow> bool" where
  "faithful env \<longleftrightarrow>
     (\<forall>p s. lookup env (snd (r_folders env p s)) = lookup env s)
   \<and> (\<forall>p s. lookup env (snd (r_folders_show env p s)) = lookup env s)
   \<and> (\<forall>n s. lookup env (r_elapse env n s) = lookup env s)
   \<and> (\<forall>name p s e s'. r_folders_create env name p s = (Error e, s')
         \<longrightarrow> lookup env s' = lookup env s)
   \<and> (\<forall>name p s f s'. r_folders_create env name p s = (Success f, s')
           \<and> lookup env s p name = Success None
         \<longrightarrow> lookup env s'
             = (\<lambda>q nm. if q = p \<and> nm = name then Success (Some f) else lookup env s q nm))"

text \<open>Every folder found in the first table is found in the second.\<close>

definition keeps ::
  "(string option \<Rightarrow> string \<Rightarrow> folder option response)
     \<Rightarrow> (string option \<Rightarrow> string \<Rightarrow> folder option response) \<Rightarrow> bool" where
  "keeps t1 t2 \<longleftrightarrow> (\<forall>q nm f. t1 q nm = Success (Some f) \<longrightarrow> t2 q nm = Success (Some f))"

text \<open>Following the segments through a table of listings: the id of the last folder,
  when every segment is found.\<close>

fun walk ::
  "(string option \<Rightarrow> string \<Rightarrow> folder option response) \<Rightarrow> string list \<Rightarrow> string option
     \<Rightarrow> string option option" where
  "walk tbl [] parent_id = Some parent_id"
| "walk tbl (folder # rest) parent_id =
     (case tbl parent_id folder of
        Success (Some f) \<Rightarrow> walk tbl rest (Some (f_id f))
      | Success None \<Rightarrow> None
      | Error e \<Rightarrow> None)"

text \<open>The names of the folders a log created, and its creation requests.\<close>

fun created :: "event \<Rightarrow> string list" where
  "created (Exchange (DriveFoldersCreate name parent_id) Accepted) = [name]"
| "created ev = []"

definition creations :: "event list \<Rightarrow> string list" where
  "creations es = concat (map created es)"

fun is_creation :: "event \<Rightarrow> bool" where
  "is_creation (Exchange (DriveFoldersCreate name parent_id) r) = True"
| "is_creation ev = False"

text \<open>
  \<open>listed_first l es\<close>: every creation request of the log \<open>es\<close> is for the parent whose
  folders were listed last, with nothing since that listing but attempts of the
  creation and sleeps; \<open>l\<close> is the parent listed before \<open>es\<close>, if any.
\<close>

fun listed_first :: "string option option \<Rightarrow> event list \<Rightarrow> bool" where
  "listed_first l [] = True"
| "listed_first l (Exchange (DriveFolders parent_id) r # es) =
     listed_first (if r = Accepted then Some parent_id else None) es"
| "listed_first l (Exchange (DriveFoldersCreate name parent_id) r # es) =
     (l = Some parent_id \<and> listed_first l es)"
| "listed_first l (Sleep n # es) = listed_first l es"
| "listed_first l (Exchange rq r # es) = listed_first None es"

section \<open>A service that stores folders\<close>

text \<open>The state is the list of all folders; a new folder's id is its path of names.\<close>

definition unavailable :: api_error where
  "unavailable = ApiError ''UNAVAILABLE'' []"

definition no_such_folder :: api_error where
  "no_such_folder = ApiError ''NO_SUCH_FOLDER'' []"

definition new_folder :: "string \<Rightarrow> string option \<Rightarrow> folder" where
  "new_folder name parent_id =
     \<lparr>f_id = (case parent_id of None \<Rightarrow> [] | Some i \<Rightarrow> i) @ ''/'' @ name, f_name = name,
      f_parentId = parent_id\<rparr>"

definition folder_store :: "folder list env" where
  "folder_store =
     \<lparr>r_emojis = (\<lambda>s. (Error unavailable, s)),
      r_emoji_add = (\<lambda>_ _ _ _ _ _ s. (Error unavailable, s)),
      r_folders = (\<lambda>p s. (Success (filter (\<lambda>f. f_parentId f = p) s), s)),
      r_folders_show = (\<lambda>p s. (case find (\<lambda>f. Some (f_id f) = p) s of
                                  None \<Rightarrow> Error no_such_folder
                                | Some f \<Rightarrow> Success f, s)),
      r_folders_create = (\<lambda>name p s. (Success (new_folder name p), s @ [new_folder name p])),
      r_files_create = (\<lambda>_ _ _ _ s. (Error unavailable, s)),
      r_elapse = (\<lambda>_ s. s),
      guess_type = png_or_unknown,
      str_lower = ascii_lowering\<rparr>"

definition folder_b :: folder where
  "folder_b = \<lparr>f_id = ''2'', f_name = ''b'', f_parentId = Some ''1''\<rparr>"

definition listing :: "string option \<Rightarrow> event" where
  "listing p = Exchange (DriveFolders p) Accepted"

definition a_b_resolved :: "folder list world" where
  "a_b_resolved =
     \<lparr>remote = [new_folder ''a'' None, new_folder ''b'' (Some ''/a'')],
      trace = [listing None, Exchange (DriveFoldersCreate ''a'' None) Accepted,
               listing (Some ''/a''), Exchange (DriveFoldersCreate ''b'' (Some ''/a'')) Accepted]\<rparr>"

section \<open>Name derivation\<close>

lemma py_split_takeWhile:
  "\<exists>ws. py_split sep s = takeWhile (\<lambda>c. c \<noteq> sep) s # ws"
  by (induction s) auto

lemma takeWhile_take_stop:
  "i < length xs \<Longrightarrow> \<not> P (xs ! i) \<Longrightarrow> takeWhile P (take i xs) = takeWhile P xs"
proof (induction xs arbitrary: i)
  case Nil
  then show ?case by simp
next
  case (Cons x xs)
  show ?case
  proof (cases i)
    case 0
    with Cons.prems show ?thesis by simp
  next
    case (Suc j)
    with Cons show ?thesis by simp
  qed
qed

lemma takeWhile_short:
  "x \<in> set xs \<Longrightarrow> \<not> P x \<Longrightarrow> length (takeWhile P xs) < length xs"
  by (induction xs) auto

lemma rfind_hit:
  assumes "c \<in> set s"
  shows "0 \<le> rfind s c \<and> nat (rfind s c) < length s \<and> s ! nat (rfind s c) = c"
proof -
  let ?k = "length (takeWhile (\<lambda>x. x \<noteq> c) (rev s))"
  from assms have "c \<in> set (rev s)" by simp
  then have k: "?k < length (rev s)"
    by (rule takeWhile_short) simp
  then have hit: "rev s ! ?k = c"
    using nth_length_takeWhile [of "\<lambda>x. x \<noteq> c" "rev s"] by simp
  from k have k': "?k < length s" by simp
  have r: "rfind s c = int (length s) - 1 - int ?k"
    using assms by (simp add: rfind_def)
  with k' have n: "nat (rfind s c) = length s - 1 - ?k" by linarith
  from k' have "rev s ! ?k = s ! (length s - 1 - ?k)"
    by (simp add: rev_nth)
  with hit n r k' show ?thesis by simp
qed

lemma stem_takeWhile:
  "takeWhile (\<lambda>c. c \<noteq> CHR ''.'') (path_stem p) = takeWhile (\<lambda>c. c \<noteq> CHR ''.'') (path_name p)"
proof (cases "CHR ''.'' \<in> set (path_name p)")
  case True
  from rfind_hit [OF True] show ?thesis
    by (simp add: path_stem_def Let_def takeWhile_take_stop)
next
  case False
  then show ?thesis by (simp add: path_stem_def Let_def rfind_def)
qed

lemma lowering_ascii: "ascii s \<Longrightarrow> lower_with L s = ascii_lower s"
  using lower_with [of L] by simp

lemma lowering_no_dot: "CHR ''.'' \<notin> set s \<Longrightarrow> CHR ''.'' \<notin> set (lower_with L s)"
  using lower_with [of L] by simp

lemma emoji_name_text:
  "emoji_name_of L p =
     Inr (replace_char CHR ''-'' CHR ''_''
       (lower_with L (takeWhile (\<lambda>c. c \<noteq> CHR ''.'') (path_name p))))"
proof -
  obtain ws where "py_split CHR ''.'' (path_stem p)
      = takeWhile (\<lambda>c. c \<noteq> CHR ''.'') (path_stem p) # ws"
    using py_split_takeWhile by blast
  then show ?thesis
    by (simp add: emoji_name_of_def stem_takeWhile)
qed

lemma emoji_name_ascii:
  assumes "takeWhile (\<lambda>c. c \<noteq> CHR ''.'') (path_name p) = t" and "ascii t"
    and "replace_char CHR ''-'' CHR ''_'' (ascii_lower t) = nm"
  shows "emoji_name_of L p = Inr nm"
  by (simp only: emoji_name_text assms(1) lowering_ascii [OF assms(2)] assms(3))

text \<open>
  C3. The emoji name is a function of the file's base name alone: the text before
  the first dot, lower-cased, with every hyphen replaced by an underscore, however
  many dots the name has; \<open>Foo-Bar.png\<close> gives \<open>foo_bar\<close> and \<open>a.b.c.png\<close> gives \<open>a\<close>.
  This holds for every lower-casing \<open>L\<close>, that of the interpreter among them; on an ASCII
  name the lower-casing is the ASCII one.
\<close>

theorem emoji_name_derivation:
  "emoji_name_of L p =
     Inr (replace_char CHR ''-'' CHR ''_''
       (lower_with L (takeWhile (\<lambda>c. c \<noteq> CHR ''.'') (path_name p))))
   \<and> CHR ''-'' \<notin> set (projr (emoji_name_of L p))
   \<and> emoji_name_of L (Path [''dir'', ''Foo-Bar.png'']) = Inr ''foo_bar''
   \<and> emoji_name_of L (Path [''a.b.c.png'']) = Inr ''a''
   \<and> lower_with L ''Foo-Bar'' = ''foo-bar''
   \<and> (ascii (path_name p) \<longrightarrow>
        emoji_name_of L p =
          Inr (replace_char CHR ''-'' CHR ''_''
            (ascii_lower (takeWhile (\<lambda>c. c \<noteq> CHR ''.'') (path_name p)))))"
proof -
  have h: "CHR ''-'' \<notin> set (projr (emoji_name_of L p))"
    by (auto simp: emoji_name_text replace_char_def)
  have t1: "takeWhile (\<lambda>c. c \<noteq> CHR ''.'') (path_name (Path [''dir'', ''Foo-Bar.png'']))
      = ''Foo-Bar''"
    by code_simp
  have t2: "takeWhile (\<lambda>c. c \<noteq> CHR ''.'') (path_name (Path [''a.b.c.png''])) = ''a''"
    by code_simp
  have a1: "ascii ''Foo-Bar''" and a2: "ascii ''a''"
    by code_simp+
  have l1: "replace_char CHR ''-'' CHR ''_'' (ascii_lower ''Foo-Bar'') = ''foo_bar''"
    and l2: "replace_char CHR ''-'' CHR ''_'' (ascii_lower ''a'') = ''a''"
    and l3: "ascii_lower ''Foo-Bar'' = ''foo-bar''"
    by code_simp+
  have e1: "emoji_name_of L (Path [''dir'', ''Foo-Bar.png'']) = Inr ''foo_bar''"
    by (simp only: emoji_name_text t1 lowering_ascii [OF a1] l1)
  have e2: "emoji_name_of L (Path [''a.b.c.png'']) = Inr ''a''"
    by (simp only: emoji_name_text t2 lowering_ascii [OF a2] l2)
  have e3: "lower_with L ''Foo-Bar'' = ''foo-bar''"
    by (simp only: lowering_ascii [OF a1] l3)
  have e4: "emoji_name_of L p =
          Inr (replace_char CHR ''-'' CHR ''_''
            (ascii_lower (takeWhile (\<lambda>c. c \<noteq> CHR ''.'') (path_name p))))"
    if "ascii (path_name p)"
  proof -
    from that have "ascii (takeWhile (\<lambda>c. c \<noteq> CHR ''.'') (path_name p))"
      unfolding ascii_def list_all_iff by (auto dest: set_takeWhileD)
    then show ?thesis by (simp only: emoji_name_text lowering_ascii)
  qed
  from emoji_name_text [of L p] h e1 e2 e3 e4 show ?thesis by blast
qed

theorem emoji_name_derivation_witness:
  "ascii (path_name (Path [''emojis'', ''Blob-Cat.v2.PNG'']))
   \<and> emoji_name_of ascii_lowering (Path [''emojis'', ''Blob-Cat.v2.PNG'']) = Inr ''blob_cat''"
proof -
  have a: "ascii (path_name (Path [''emojis'', ''Blob-Cat.v2.PNG'']))"
    by code_simp
  have "replace_char CHR ''-'' CHR ''_''
      (ascii_lower (takeWhile (\<lambda>c. c \<noteq> CHR ''.'') (path_name (Path [''emojis'', ''Blob-Cat.v2.PNG'']))))
    = ''blob_cat''"
    by code_simp
  moreover from a emoji_name_derivation [of ascii_lowering "Path [''emojis'', ''Blob-Cat.v2.PNG'']"]
  have "emoji_name_of ascii_lowering (Path [''emojis'', ''Blob-Cat.v2.PNG'']) =
          Inr (replace_char CHR ''-'' CHR ''_''
            (ascii_lower (takeWhile (\<lambda>c. c \<noteq> CHR ''.'')
               (path_name (Path [''emojis'', ''Blob-Cat.v2.PNG''])))))"
    by blast
  ultimately have "emoji_name_of ascii_lowering (Path [''emojis'', ''Blob-Cat.v2.PNG''])
      = Inr ''blob_cat''"
    by (simp only:)
  with a show ?thesis by blast
qed

section \<open>The retry loops\<close>

lemma retry_events_Suc:
  "retry_events rq (Suc n) =
     [Exchange rq (Refused ''RATE_LIMIT_EXCEEDED''), Sleep RATE_LIMIT_WAIT] @ retry_events rq n"
  by (simp add: retry_events_def)

lemma answered_iff:
  "answered step wait s0 n = Some (data, s') \<longleftrightarrow>
     (\<exists>s. refusals step wait n s0 = Some s \<and> step s = (data, s') \<and> \<not> rate_limited data)"
  by (auto simp: answered_def split: option.splits prod.splits)

lemma create_retry:
  "refusals (r_folders_create env name pid) (r_elapse env RATE_LIMIT_WAIT) n (remote w) = Some s
   \<Longrightarrow> create_drive_folder env name pid w
       = create_drive_folder env name pid
           \<lparr>remote = s, trace = trace w @ retry_events (DriveFoldersCreate name pid) n\<rparr>"
proof (induction n arbitrary: w)
  case 0
  then show ?case by (cases w) (simp add: retry_events_def)
next
  case (Suc n)
  from Suc.prems obtain e s1 where
    st: "r_folders_create env name pid (remote w) = (Error e, s1)"
    and rl: "code e = ''RATE_LIMIT_EXCEEDED''"
    and re: "refusals (r_folders_create env name pid) (r_elapse env RATE_LIMIT_WAIT) n
               (r_elapse env RATE_LIMIT_WAIT s1) = Some s"
    by (auto split: prod.splits response.splits if_splits)
  let ?w1 = "sleep env RATE_LIMIT_WAIT
      \<lparr>remote = s1, trace = trace w @ [Exchange (DriveFoldersCreate name pid) (Refused ''RATE_LIMIT_EXCEEDED'')]\<rparr>"
  have "create_drive_folder env name pid w = create_drive_folder env name pid ?w1"
    by (subst create_drive_folder.simps) (simp add: exchange_def st rl reply_of_def)
  also have "\<dots> = create_drive_folder env name pid
      \<lparr>remote = s, trace = trace ?w1 @ retry_events (DriveFoldersCreate name pid) n\<rparr>"
    by (rule Suc.IH) (simp add: sleep_def re)
  finally show ?case by (simp add: sleep_def retry_events_Suc)
qed

lemma create_last:
  "r_folders_create env name pid (remote w) = (data, s') \<Longrightarrow> \<not> rate_limited data
   \<Longrightarrow> create_drive_folder env name pid w
       = Some (case data of Success f \<Rightarrow> Inr f | Error e \<Rightarrow> Inl (RuntimeError_body e),
               \<lparr>remote = s', trace = trace w @ [Exchange (DriveFoldersCreate name pid) (reply_of data)]\<rparr>)"
  by (subst create_drive_folder.simps)
     (simp add: exchange_def rate_limited_def split: response.splits)

lemma create_returns:
  assumes "create_drive_folder env name pid w = Some y"
  shows "\<exists>n s data s'.
      refusals (r_folders_create env name pid) (r_elapse env RATE_LIMIT_WAIT) n (remote w) = Some s
    \<and> r_folders_create env name pid s = (data, s') \<and> \<not> rate_limited data
    \<and> y = (case data of Success f \<Rightarrow> Inr f | Error e \<Rightarrow> Inl (RuntimeError_body e),
           settle (DriveFoldersCreate name pid) (reply_of data) s' n w)"
proof (rule create_drive_folder.raw_induct [where P = "\<lambda>env name pid w y. \<exists>n s data s'.
      refusals (r_folders_create env name pid) (r_elapse env RATE_LIMIT_WAIT) n (remote w) = Some s
    \<and> r_folders_create env name pid s = (data, s') \<and> \<not> rate_limited data
    \<and> y = (case data of Success f \<Rightarrow> Inr f | Error e \<Rightarrow> Inl (RuntimeError_body e),
           settle (DriveFoldersCreate name pid) (reply_of data) s' n w)", OF _ assms])
  fix cdf :: "'a env \<Rightarrow> string \<Rightarrow> string option \<Rightarrow> 'a world \<Rightarrow> ((py_error + folder) \<times> 'a world) option"
    and env name pid w y
  assume IH: "\<And>env name pid w y. cdf env name pid w = Some y \<Longrightarrow> \<exists>n s data s'.
      refusals (r_folders_create env name pid) (r_elapse env RATE_LIMIT_WAIT) n (remote w) = Some s
    \<and> r_folders_create env name pid s = (data, s') \<and> \<not> rate_limited data
    \<and> y = (case data of Success f \<Rightarrow> Inr f | Error e \<Rightarrow> Inl (RuntimeError_body e),
           settle (DriveFoldersCreate name pid) (reply_of data) s' n w)"
  assume body: "(case exchange (DriveFoldersCreate name pid) (r_folders_create env name pid) w of
        (Success data, w1) \<Rightarrow> Some (Inr data, w1)
      | (Error e, w1) \<Rightarrow>
          if code e = ''RATE_LIMIT_EXCEEDED''
          then cdf env name pid (sleep env RATE_LIMIT_WAIT w1)
          else Some (Inl (RuntimeError_body e), w1)) = Some y"
  obtain data s1 where st: "r_folders_create env name pid (remote w) = (data, s1)"
    by (cases "r_folders_create env name pid (remote w)")
  show "\<exists>n s data s'.
      refusals (r_folders_create env name pid) (r_elapse env RATE_LIMIT_WAIT) n (remote w) = Some s
    \<and> r_folders_create env name pid s = (data, s') \<and> \<not> rate_limited data
    \<and> y = (case data of Success f \<Rightarrow> Inr f | Error e \<Rightarrow> Inl (RuntimeError_body e),
           settle (DriveFoldersCreate name pid) (reply_of data) s' n w)"
  proof (cases "rate_limited data")
    case False
    with body st have "y = (case data of Success f \<Rightarrow> Inr f | Error e \<Rightarrow> Inl (RuntimeError_body e),
           settle (DriveFoldersCreate name pid) (reply_of data) s1 0 w)"
      by (auto simp: exchange_def rate_limited_def settle_def retry_events_def split: response.splits)
    with st False show ?thesis
      by (intro exI [of _ 0] exI [of _ "remote w"] exI [of _ data] exI [of _ s1]) simp
  next
    case True
    then obtain e where e: "data = Error e" "code e = ''RATE_LIMIT_EXCEEDED''"
      by (auto simp: rate_limited_def split: response.splits)
    let ?w1 = "sleep env RATE_LIMIT_WAIT
      \<lparr>remote = s1, trace = trace w @ [Exchange (DriveFoldersCreate name pid) (Refused ''RATE_LIMIT_EXCEEDED'')]\<rparr>"
    from body st e have "cdf env name pid ?w1 = Some y"
      by (simp add: exchange_def reply_of_def)
    from IH [OF this] obtain n s data' s' where
      r: "refusals (r_folders_create env name pid) (r_elapse env RATE_LIMIT_WAIT) n (remote ?w1) = Some s"
      and l: "r_folders_create env name pid s = (data', s')" "\<not> rate_limited data'"
      and y: "y = (case data' of Success f \<Rightarrow> Inr f | Error e \<Rightarrow> Inl (RuntimeError_body e),
           settle (DriveFoldersCreate name pid) (reply_of data') s' n ?w1)"
      by blast
    from r st e have "refusals (r_folders_create env name pid) (r_elapse env RATE_LIMIT_WAIT) (Suc n) (remote w) = Some s"
      by (simp add: sleep_def)
    moreover have "settle (DriveFoldersCreate name pid) (reply_of data') s' n ?w1 = settle (DriveFoldersCreate name pid) (reply_of data') s' (Suc n) w"
      by (simp add: settle_def sleep_def retry_events_Suc)
    ultimately show ?thesis using l y by metis
  qed
qed

lemma create_settles:
  assumes "answered (r_folders_create env name pid) (r_elapse env RATE_LIMIT_WAIT) (remote w) n
             = Some (data, s')"
  shows "create_drive_folder env name pid w
       = Some (case data of Success f \<Rightarrow> Inr f | Error e \<Rightarrow> Inl (RuntimeError_body e),
               settle (DriveFoldersCreate name pid) (reply_of data) s' n w)"
proof -
  from assms obtain s where
    r: "refusals (r_folders_create env name pid) (r_elapse env RATE_LIMIT_WAIT) n (remote w) = Some s"
    and l: "r_folders_create env name pid s = (data, s')" "\<not> rate_limited data"
    by (auto simp: answered_iff)
  from create_retry [OF r] create_last [of env name pid _ data s', OF _ l(2)] l(1)
  show ?thesis by (simp add: settle_def)
qed

lemma create_answered:
  assumes "create_drive_folder env name pid w = Some y"
  shows "\<exists>n data s'.
      answered (r_folders_create env name pid) (r_elapse env RATE_LIMIT_WAIT) (remote w) n
        = Some (data, s')
    \<and> y = (case data of Success f \<Rightarrow> Inr f | Error e \<Rightarrow> Inl (RuntimeError_body e),
           settle (DriveFoldersCreate name pid) (reply_of data) s' n w)"
  using create_returns [OF assms] by (metis answered_iff)

lemma create_never:
  assumes "\<forall>n. answered (r_folders_create env name pid) (r_elapse env RATE_LIMIT_WAIT) (remote w) n
             = None"
  shows "create_drive_folder env name pid w = None"
proof (cases "create_drive_folder env name pid w")
  case None
  then show ?thesis .
next
  case (Some y)
  from create_answered [OF Some] assms show ?thesis by auto
qed

lemma upload_retry:
  "refusals (r_files_create env fp fid fname mt) (r_elapse env RATE_LIMIT_WAIT) n (remote w) = Some s
   \<Longrightarrow> upload_attempts env fp fid fname mt w
       = upload_attempts env fp fid fname mt
           \<lparr>remote = s, trace = trace w @ retry_events (DriveFilesCreate fp fid fname mt) n\<rparr>"
proof (induction n arbitrary: w)
  case 0
  then show ?case by (cases w) (simp add: retry_events_def)
next
  case (Suc n)
  from Suc.prems obtain e s1 where
    st: "r_files_create env fp fid fname mt (remote w) = (Error e, s1)"
    and rl: "code e = ''RATE_LIMIT_EXCEEDED''"
    and re: "refusals (r_files_create env fp fid fname mt) (r_elapse env RATE_LIMIT_WAIT) n
               (r_elapse env RATE_LIMIT_WAIT s1) = Some s"
    by (auto split: prod.splits response.splits if_splits)
  let ?w1 = "sleep env RATE_LIMIT_WAIT
      \<lparr>remote = s1, trace = trace w @ [Exchange (DriveFilesCreate fp fid fname mt) (Refused ''RATE_LIMIT_EXCEEDED'')]\<rparr>"
  have "upload_attempts env fp fid fname mt w = upload_attempts env fp fid fname mt ?w1"
    by (subst upload_attempts.simps) (simp add: exchange_def st rl reply_of_def)
  also have "\<dots> = upload_attempts env fp fid fname mt
      \<lparr>remote = s, trace = trace ?w1 @ retry_events (DriveFilesCreate fp fid fname mt) n\<rparr>"
    by (rule Suc.IH) (simp add: sleep_def re)
  finally show ?case by (simp add: sleep_def retry_events_Suc)
qed

lemma upload_last:
  "r_files_create env fp fid fname mt (remote w) = (data, s') \<Longrightarrow> \<not> rate_limited data
   \<Longrightarrow> upload_attempts env fp fid fname mt w
       = Some (case data of Success f \<Rightarrow> Inr f | Error e \<Rightarrow> Inl (RuntimeError e),
               \<lparr>remote = s', trace = trace w @ [Exchange (DriveFilesCreate fp fid fname mt) (reply_of data)]\<rparr>)"
  by (subst upload_attempts.simps)
     (simp add: exchange_def rate_limited_def split: response.splits)

lemma upload_returns:
  assumes "upload_attempts env fp fid fname mt w = Some y"
  shows "\<exists>n s data s'.
      refusals (r_files_create env fp fid fname mt) (r_elapse env RATE_LIMIT_WAIT) n (remote w) = Some s
    \<and> r_files_create env fp fid fname mt s = (data, s') \<and> \<not> rate_limited data
    \<and> y = (case data of Success f \<Rightarrow> Inr f | Error e \<Rightarrow> Inl (RuntimeError e),
           settle (DriveFilesCreate fp fid fname mt) (reply_of data) s' n w)"
proof (rule upload_attempts.raw_induct [where P = "\<lambda>env fp fid fname mt w y. \<exists>n s data s'.
      refusals (r_files_create env fp fid fname mt) (r_elapse env RATE_LIMIT_WAIT) n (remote w) = Some s
    \<and> r_files_create env fp fid fname mt s = (data, s') \<and> \<not> rate_limited data
    \<and> y = (case data of Success f \<Rightarrow> Inr f | Error e \<Rightarrow> Inl (RuntimeError e),
           settle (DriveFilesCreate fp fid fname mt) (reply_of data) s' n w)", OF _ assms])
  fix cdf :: "'a env \<Rightarrow> path \<Rightarrow> string option \<Rightarrow> string \<Rightarrow> string \<Rightarrow> 'a world \<Rightarrow> ((py_error + drive_file) \<times> 'a world) option"
    and env fp fid fname mt w y
  assume IH: "\<And>env fp fid fname mt w y. cdf env fp fid fname mt w = Some y \<Longrightarrow> \<exists>n s data s'.
      refusals (r_files_create env fp fid fname mt) (r_elapse env RATE_LIMIT_WAIT) n (remote w) = Some s
    \<and> r_files_create env fp fid fname mt s = (data, s') \<and> \<not> rate_limited data
    \<and> y = (case data of Success f \<Rightarrow> Inr f | Error e \<Rightarrow> Inl (RuntimeError e),
           settle (DriveFilesCreate fp fid fname mt) (reply_of data) s' n w)"
  assume body: "(case exchange (DriveFilesCreate fp fid fname mt) (r_files_create env fp fid fname mt) w of
        (Success data, w1) \<Rightarrow> Some (Inr data, w1)
      | (Error e, w1) \<Rightarrow>
          if code e = ''RATE_LIMIT_EXCEEDED''
          then cdf env fp fid fname mt (sleep env RATE_LIMIT_WAIT w1)
          else Some (Inl (RuntimeError e), w1)) = Some y"
  obtain data s1 where st: "r_files_create env fp fid fname mt (remote w) = (data, s1)"
    by (cases "r_files_create env fp fid fname mt (remote w)")
  show "\<exists>n s data s'.
      refusals (r_files_create env fp fid fname mt) (r_elapse env RATE_LIMIT_WAIT) n (remote w) = Some s
    \<and> r_files_create env fp fid fname mt s = (data, s') \<and> \<not> rate_limited data
    \<and> y = (case data of Success f \<Rightarrow> Inr f | Error e \<Rightarrow> Inl (RuntimeError e),
           settle (DriveFilesCreate fp fid fname mt) (reply_of data) s' n w)"
  proof (cases "rate_limited data")
    case False
    with body st have "y = (case data of Success f \<Rightarrow> Inr f | Error e \<Rightarrow> Inl (RuntimeError e),
           settle (DriveFilesCreate fp fid fname mt) (reply_of data) s1 0 w)"
      by (auto simp: exchange_def rate_limited_def settle_def retry_events_def split: response.splits)
    with st False show ?thesis
      by (intro exI [of _ 0] exI [of _ "remote w"] exI [of _ data] exI [of _ s1]) simp
  next
    case True
    then obtain e where e: "data = Error e" "code e = ''RATE_LIMIT_EXCEEDED''"
      by (auto simp: rate_limited_def split: response.splits)
    let ?w1 = "sleep env RATE_LIMIT_WAIT
      \<lparr>remote = s1, trace = trace w @ [Exchange (DriveFilesCreate fp fid fname mt) (Refused ''RATE_LIMIT_EXCEEDED'')]\<rparr>"
    from body st e have "cdf env fp fid fname mt ?w1 = Some y"
      by (simp add: exchange_def reply_of_def)
    from IH [OF this] obtain n s data' s' where
      r: "refusals (r_files_create env fp fid fname mt) (r_elapse env RATE_LIMIT_WAIT) n (remote ?w1) = Some s"
      and l: "r_files_create env fp fid fname mt s = (data', s')" "\<not> rate_limited data'"
      and y: "y = (case data' of Success f \<Rightarrow> Inr f | Error e \<Rightarrow> Inl (RuntimeError e),
           settle (DriveFilesCreate fp fid fname mt) (reply_of data') s' n ?w1)"
      by blast
    from r st e have "refusals (r_files_create env fp fid fname mt) (r_elapse env RATE_LIMIT_WAIT) (Suc n) (remote w) = Some s"
      by (simp add: sleep_def)
    moreover have "settle (DriveFilesCreate fp fid fname mt) (reply_of data') s' n ?w1 = settle (DriveFilesCreate fp fid fname mt) (reply_of data') s' (Suc n) w"
      by (simp add: settle_def sleep_def retry_events_Suc)
    ultimately show ?thesis using l y by metis
  qed
qed

lemma upload_settles:
  assumes "answered (r_files_create env fp fid fname mt) (r_elapse env RATE_LIMIT_WAIT) (remote w) n
             = Some (data, s')"
  shows "upload_attempts env fp fid fname mt w
       = Some (case data of Success f \<Rightarrow> Inr f | Error e \<Rightarrow> Inl (RuntimeError e),
               settle (DriveFilesCreate fp fid fname mt) (reply_of data) s' n w)"
proof -
  from assms obtain s where
    r: "refusals (r_files_create env fp fid fname mt) (r_elapse env RATE_LIMIT_WAIT) n (remote w) = Some s"
    and l: "r_files_create env fp fid fname mt s = (data, s')" "\<not> rate_limited data"
    by (auto simp: answered_iff)
  from upload_retry [OF r] upload_last [of env fp fid fname mt _ data s', OF _ l(2)] l(1)
  show ?thesis by (simp add: settle_def)
qed

lemma upload_answered:
  assumes "upload_attempts env fp fid fname mt w = Some y"
  shows "\<exists>n data s'.
      answered (r_files_create env fp fid fname mt) (r_elapse env RATE_LIMIT_WAIT) (remote w) n
        = Some (data, s')
    \<and> y = (case data of Success f \<Rightarrow> Inr f | Error e \<Rightarrow> Inl (RuntimeError e),
           settle (DriveFilesCreate fp fid fname mt) (reply_of data) s' n w)"
  using upload_returns [OF assms] by (metis answered_iff)

lemma upload_never:
  assumes "\<forall>n. answered (r_files_create env fp fid fname mt) (r_elapse env RATE_LIMIT_WAIT) (remote w) n
             = None"
  shows "upload_attempts env fp fid fname mt w = None"
proof (cases "upload_attempts env fp fid fname mt w")
  case None
  then show ?thesis .
next
  case (Some y)
  from upload_answered [OF Some] assms show ?thesis by auto
qed


text \<open>
  C5. The retry loop of folder creation and of file upload: when the service refuses
  the request \<open>n\<close> times with a rate-limit error and then gives another reply, the
  loop sends the same request \<open>n + 1\<close> times, sleeps \<open>RATE_LIMIT_WAIT\<close> = 60 after each
  refusal, and ends on that reply: it returns a successful body as it is, with no
  further request, and raises at once on any other error, with the error payload. This
  holds for every \<open>n\<close>: there is no bound on the retries, and against a service that
  never lifts the limit the loop never returns.
\<close>

theorem rate_limit_retry:
  "(answered (r_folders_create env name parent_id) (r_elapse env RATE_LIMIT_WAIT) (remote w) n
      = Some (data, s')
    \<longrightarrow> create_drive_folder env name parent_id w
        = Some (case data of Success body \<Rightarrow> Inr body | Error e \<Rightarrow> Inl (RuntimeError_body e),
                settle (DriveFoldersCreate name parent_id) (reply_of data) s' n w))
   \<and> ((\<forall>k. answered (r_folders_create env name parent_id) (r_elapse env RATE_LIMIT_WAIT)
              (remote w) k = None)
      \<longrightarrow> create_drive_folder env name parent_id w = None)
   \<and> (answered (r_files_create env file_path folder_id file_name (mime_type_of env file_name))
        (r_elapse env RATE_LIMIT_WAIT) (remote w) n = Some (fdata, s')
      \<longrightarrow> drive_upload_file env file_path folder_id file_name w
        = Some (case fdata of Success body \<Rightarrow> Inr body | Error e \<Rightarrow> Inl (RuntimeError e),
                settle (DriveFilesCreate file_path folder_id file_name
                         (mime_type_of env file_name)) (reply_of fdata) s' n w))
   \<and> ((\<forall>k. answered (r_files_create env file_path folder_id file_name
                (mime_type_of env file_name)) (r_elapse env RATE_LIMIT_WAIT) (remote w) k = None)
      \<longrightarrow> drive_upload_file env file_path folder_id file_name w = None)
   \<and> RATE_LIMIT_WAIT = 60"
  using create_settles [of env name parent_id w n data s']
    create_never [of env name parent_id w]
    upload_settles [of env file_path folder_id file_name "mime_type_of env file_name" w n fdata s']
    upload_never [of env file_path folder_id file_name "mime_type_of env file_name" w]
  by (simp add: drive_upload_file_def RATE_LIMIT_WAIT_def)

lemma always_refused:
  assumes "\<And>s. \<exists>s'. step s = (Error rate_limit, s')"
  shows "answered step wait s n = None"
proof -
  have "\<exists>s'. refusals step wait n s = Some s'"
  proof (induction n arbitrary: s)
    case 0
    show ?case by simp
  next
    case (Suc n)
    from assms obtain s1 where "step s = (Error rate_limit, s1)" by blast
    with Suc [of "wait s1"] show ?case by (simp add: rate_limit_def)
  qed
  then obtain s' where r: "refusals step wait n s = Some s'" by blast
  from assms obtain s2 where "step s' = (Error rate_limit, s2)" by blast
  with r show ?thesis by (simp add: answered_def rate_limited_def rate_limit_def)
qed

theorem rate_limit_retry_witness:
  "create_drive_folder scripted ''a'' None
     \<lparr>remote = silent\<lparr>create_replies := [Error rate_limit, Error rate_limit, Success folder_a]\<rparr>,
      trace = []\<rparr>
   = Some (Inr folder_a,
       \<lparr>remote = silent,
        trace = [Exchange (DriveFoldersCreate ''a'' None) (Refused ''RATE_LIMIT_EXCEEDED''), Sleep 60,
                 Exchange (DriveFoldersCreate ''a'' None) (Refused ''RATE_LIMIT_EXCEEDED''), Sleep 60,
                 Exchange (DriveFoldersCreate ''a'' None) Accepted]\<rparr>)
   \<and> create_drive_folder busy ''a'' None \<lparr>remote = (), trace = []\<rparr> = None
   \<and> drive_upload_file scripted (Path [''cat.png'']) None ''cat.png''
       \<lparr>remote = silent\<lparr>upload_replies := [Error rate_limit, Error denied]\<rparr>, trace = []\<rparr>
     = Some (Inl (RuntimeError denied),
         \<lparr>remote = silent,
          trace = [Exchange (DriveFilesCreate (Path [''cat.png'']) None ''cat.png'' ''image/png'')
                     (Refused ''RATE_LIMIT_EXCEEDED''), Sleep 60,
                   Exchange (DriveFilesCreate (Path [''cat.png'']) None ''cat.png'' ''image/png'')
                     (Refused ''NO_FREE_SPACE'')]\<rparr>)
   \<and> drive_upload_file busy (Path [''cat.png'']) None ''cat.png'' \<lparr>remote = (), trace = []\<rparr> = None"
proof -
  let ?w1 = "\<lparr>remote = silent\<lparr>create_replies := [Error rate_limit, Error rate_limit, Success folder_a]\<rparr>,
      trace = []\<rparr>"
  let ?w2 = "\<lparr>remote = silent\<lparr>upload_replies := [Error rate_limit, Error denied]\<rparr>, trace = []\<rparr>"
  have m: "mime_type_of scripted ''cat.png'' = ''image/png''" "mime_type_of busy ''cat.png'' = ''image/png''"
    by (simp_all add: mime_type_of_def scripted_def busy_def png_or_unknown_def)
  have a1: "answered (r_folders_create scripted ''a'' None) (r_elapse scripted RATE_LIMIT_WAIT)
      (remote ?w1) (Suc (Suc 0)) = Some (Success folder_a, silent)"
    by (simp add: answered_def scripted_def next_reply_def rate_limit_def rate_limited_def silent_def)
  have a2: "answered (r_files_create scripted (Path [''cat.png'']) None ''cat.png'' (mime_type_of scripted ''cat.png''))
      (r_elapse scripted RATE_LIMIT_WAIT) (remote ?w2) (Suc 0) = Some (Error denied, silent)"
    by (simp add: answered_def scripted_def next_reply_def rate_limit_def rate_limited_def silent_def denied_def)
  have b1: "\<forall>k. answered (r_folders_create busy ''a'' None) (r_elapse busy RATE_LIMIT_WAIT)
                (remote \<lparr>remote = (), trace = []\<rparr>) k = None"
    by (intro allI always_refused) (simp add: busy_def)
  have b2: "\<forall>k. answered (r_files_create busy (Path [''cat.png'']) None ''cat.png'' (mime_type_of busy ''cat.png''))
                (r_elapse busy RATE_LIMIT_WAIT) (remote \<lparr>remote = (), trace = []\<rparr>) k = None"
    by (intro allI always_refused) (simp add: busy_def)
  from rate_limit_retry [of scripted "''a''" None ?w1 "Suc (Suc 0)" "Success folder_a" silent
      "Path [''cat.png'']" None "''cat.png''" "Error denied"] a1
  have c1: "create_drive_folder scripted ''a'' None ?w1 = Some (Inr folder_a,
       settle (DriveFoldersCreate ''a'' None) Accepted silent (Suc (Suc 0)) ?w1)"
    by (simp add: reply_of_def)
  from rate_limit_retry [of scripted "''a''" None ?w2 "Suc 0" "Success folder_a" silent
      "Path [''cat.png'']" None "''cat.png''" "Error denied"] a2
  have c2: "drive_upload_file scripted (Path [''cat.png'']) None ''cat.png'' ?w2 = Some (Inl (RuntimeError denied),
       settle (DriveFilesCreate (Path [''cat.png'']) None ''cat.png'' (mime_type_of scripted ''cat.png''))
         (Refused ''NO_FREE_SPACE'') silent (Suc 0) ?w2)"
    by (simp add: reply_of_def denied_def)
  from rate_limit_retry [of busy "''a''" None "\<lparr>remote = (), trace = []\<rparr>" 0 "Success folder_a" "()"
      "Path [''cat.png'']" None "''cat.png''" "Error denied"] b1 b2
  have c3: "create_drive_folder busy ''a'' None \<lparr>remote = (), trace = []\<rparr> = None"
    and c4: "drive_upload_file busy (Path [''cat.png'']) None ''cat.png'' \<lparr>remote = (), trace = []\<rparr> = None"
    by blast+
  from c1 c2 c3 c4 show ?thesis
    by (simp add: settle_def retry_events_def reply_of_def RATE_LIMIT_WAIT_def m denied_def)
qed

section \<open>Files, counters and the index\<close>

lemma emoji_dict_dom:
  "foldl (\<lambda>m e. m(e_name e \<mapsto> e)) m0 es k \<noteq> None \<longleftrightarrow> m0 k \<noteq> None \<or> k \<in> e_name ` set es"
  by (induction es arbitrary: m0) auto

lemma emoji_dict_of_names:
  "emoji_dict_of current_emojis k \<noteq> None \<longleftrightarrow> k \<in> e_name ` set current_emojis"
  by (simp only: emoji_dict_of_def emoji_dict_dom) simp

lemma task_skipped:
  "emoji_name_of (str_lower env) p = Inr nm \<Longrightarrow> d nm \<noteq> None
   \<Longrightarrow> upload_emoji env opts d fid p st = Some (None, st\<lparr>skipped_count := skipped_count st + 1\<rparr>)"
  by (simp add: upload_emoji_def)

lemma task_upload_refused:
  assumes "emoji_name_of (str_lower env) p = Inr nm" and "d nm = None"
    and "answered (r_files_create env p fid (path_name p) (mime_type_of env (path_name p)))
           (r_elapse env RATE_LIMIT_WAIT) (remote (world st)) n = Some (Error e, s1)"
  shows "upload_emoji env opts d fid p st
     = Some (Some (RuntimeError e),
         st\<lparr>world := settle (DriveFilesCreate p fid (path_name p) (mime_type_of env (path_name p)))
                        (Refused (code e)) s1 n (world st)\<rparr>)"
  using assms(1,2) upload_settles [OF assms(3)]
  by (simp add: upload_emoji_def drive_upload_file_def reply_of_def)

lemma task_run:
  assumes "emoji_name_of (str_lower env) p = Inr nm" and "d nm = None"
    and "answered (r_files_create env p fid (path_name p) (mime_type_of env (path_name p)))
           (r_elapse env RATE_LIMIT_WAIT) (remote (world st)) n = Some (Success file_data, s1)"
    and "r_emoji_add env nm (df_id file_data) (category opts) (license opts) (sensitive opts)
           (local_only opts) s1 = (adata, s2)"
  shows "upload_emoji env opts d fid p st
     = Some (let w2 = \<lparr>remote = s2,
                       trace = trace (world st)
                         @ retry_events (DriveFilesCreate p fid (path_name p)
                                          (mime_type_of env (path_name p))) n
                         @ [Exchange (DriveFilesCreate p fid (path_name p)
                                       (mime_type_of env (path_name p))) Accepted,
                            Exchange (EmojiAdd nm (df_id file_data) (category opts) (license opts)
                                       (sensitive opts) (local_only opts)) (reply_of adata)]\<rparr>
             in case adata of
                  Success _ \<Rightarrow> (None, st\<lparr>success_count := success_count st + 1, world := w2\<rparr>)
                | Error e \<Rightarrow>
                    if code e = ''DUPLICATE_NAME''
                    then (None, st\<lparr>skipped_count := skipped_count st + 1, world := w2\<rparr>)
                    else (Some (RuntimeError e), st\<lparr>world := w2\<rparr>))"
  using assms(1,2,4) upload_settles [OF assms(3)]
  by (simp add: upload_emoji_def drive_upload_file_def reply_of_def emoji_add_def exchange_def
      settle_def split: response.splits)

lemma upload_emojis_append:
  "upload_emojis env opts d fid (xs @ ys) st =
     (case upload_emojis env opts d fid xs st of
        None \<Rightarrow> None
      | Some (Some err, st1) \<Rightarrow> Some (Some err, st1)
      | Some (None, st1) \<Rightarrow> upload_emojis env opts d fid ys st1)"
  by (induction xs arbitrary: st) (auto split: option.splits prod.splits)

lemma task_counts:
  assumes "upload_emoji env opts d fid p st = Some (r, st')"
  shows "(r = None \<and> (success_count st' = success_count st + 1 \<and> skipped_count st' = skipped_count st
            \<or> success_count st' = success_count st \<and> skipped_count st' = skipped_count st + 1))
       \<or> (\<exists>err. r = Some err \<and> success_count st' = success_count st
            \<and> skipped_count st' = skipped_count st)"
  using assms
  by (auto simp: upload_emoji_def split: sum.splits if_splits option.splits prod.splits response.splits)

lemma loop_counts:
  "upload_emojis env opts d fid ps st = Some (r, st')
   \<Longrightarrow> success_count st' + skipped_count st' \<le> success_count st + skipped_count st + length ps
     \<and> (r = None \<longrightarrow> success_count st' + skipped_count st'
            = success_count st + skipped_count st + length ps)"
proof (induction ps arbitrary: st)
  case Nil
  then show ?case by simp
next
  case (Cons p ps)
  from Cons.prems obtain r1 st1 where
    t: "upload_emoji env opts d fid p st = Some (r1, st1)"
    by (auto split: option.splits)
  show ?case
  proof (cases r1)
    case None
    with t Cons.prems have "upload_emojis env opts d fid ps st1 = Some (r, st')" by simp
    from Cons.IH [OF this] task_counts [OF t] None show ?thesis by auto
  next
    case (Some err)
    with t Cons.prems have "r = Some err" "st' = st1" by simp_all
    with task_counts [OF t] Some show ?thesis by auto
  qed
qed

section \<open>One file\<close>

lemma names_of_examples:
  "emoji_name_of L cat = Inr ''cat''" "emoji_name_of L dog = Inr ''dog''"
  "emoji_name_of L foo_bar = Inr ''foo_bar''"
  "path_name cat = ''cat.png''" "path_name dog = ''dog.png''" "path_name foo_bar = ''Foo-Bar.png''"
proof -
  show "emoji_name_of L cat = Inr ''cat''"
    by (rule emoji_name_ascii [where t = "''cat''"]; code_simp)
  show "emoji_name_of L dog = Inr ''dog''"
    by (rule emoji_name_ascii [where t = "''dog''"]; code_simp)
  show "emoji_name_of L foo_bar = Inr ''foo_bar''"
    by (rule emoji_name_ascii [where t = "''Foo-Bar''"]; code_simp)
  show "path_name cat = ''cat.png''" "path_name dog = ''dog.png''"
    "path_name foo_bar = ''Foo-Bar.png''"
    by (code_simp+)
qed

lemma mime_of_examples:
  "mime_type_of scripted ''cat.png'' = ''image/png''"
  "mime_type_of scripted ''Foo-Bar.png'' = ''image/png''"
  by (simp_all add: mime_type_of_def scripted_def png_or_unknown_def)

lemma scripted_steps:
  "r_emojis scripted s = (next_reply (emojis_replies s), s\<lparr>emojis_replies := tl (emojis_replies s)\<rparr>)"
  "r_emoji_add scripted a b c d e f s = (next_reply (add_replies s), s\<lparr>add_replies := tl (add_replies s)\<rparr>)"
  "r_folders scripted q s = (next_reply (folders_replies s), s\<lparr>folders_replies := tl (folders_replies s)\<rparr>)"
  "r_folders_show scripted q s = (next_reply (show_replies s), s\<lparr>show_replies := tl (show_replies s)\<rparr>)"
  "r_folders_create scripted nm q s = (next_reply (create_replies s), s\<lparr>create_replies := tl (create_replies s)\<rparr>)"
  "r_files_create scripted fp q fn mt s = (next_reply (upload_replies s), s\<lparr>upload_replies := tl (upload_replies s)\<rparr>)"
  "r_elapse scripted k s = s"
  by (simp_all add: scripted_def)

text \<open>
  C9. A file whose emoji name is in the index is skipped: the skip counter goes up by
  one, the loop goes on with the next file, and the world (the state of the service
  and the log of requests) is left as it was, so neither an upload nor an emoji
  creation is requested. The index holds exactly the names of the listed emojis.
\<close>

theorem known_name_is_skipped:
  assumes "emoji_name_of (str_lower env) emoji_path = Inr emoji_name" and "emoji_dict emoji_name \<noteq> None"
  shows "upload_emoji env opts emoji_dict folder_id emoji_path st
           = Some (None, st\<lparr>skipped_count := skipped_count st + 1\<rparr>)
       \<and> upload_emojis env opts emoji_dict folder_id (emoji_path # rest) st
           = upload_emojis env opts emoji_dict folder_id rest
               (st\<lparr>skipped_count := skipped_count st + 1\<rparr>)
       \<and> world (st\<lparr>skipped_count := skipped_count st + 1\<rparr>) = world st
       \<and> success_count (st\<lparr>skipped_count := skipped_count st + 1\<rparr>) = success_count st
       \<and> ((emoji_dict_of current_emojis emoji_name \<noteq> None)
            = (emoji_name \<in> e_name ` set current_emojis))"
proof -
  have "upload_emoji env opts emoji_dict folder_id emoji_path st
           = Some (None, st\<lparr>skipped_count := skipped_count st + 1\<rparr>)"
    by (rule task_skipped [where d = emoji_dict, OF assms])
  then show ?thesis
    by (simp add: emoji_dict_of_names [of current_emojis emoji_name, simplified])
qed

theorem known_name_is_skipped_witness:
  "upload_emojis scripted opts0 (emoji_dict_of [dog_emoji]) None [dog]
     (fresh \<lparr>remote = silent, trace = []\<rparr>)
   = Some (None, \<lparr>success_count = 0, skipped_count = 1, world = \<lparr>remote = silent, trace = []\<rparr>\<rparr>)"
proof -
  have "emoji_dict_of [dog_emoji] ''dog'' \<noteq> None"
    by (simp add: emoji_dict_of_def dog_emoji_def)
  from known_name_is_skipped [where emoji_dict = "emoji_dict_of [dog_emoji]" and env = scripted
      and opts = opts0 and folder_id = None and st = "fresh \<lparr>remote = silent, trace = []\<rparr>"
      and rest = "[]", OF names_of_examples(2) this]
  show ?thesis by (simp add: fresh_def)
qed

text \<open>
  C6. A file whose name is not in the index, whose upload is accepted (after any
  number of rate-limit refusals), and whose emoji creation is refused with
  \<open>DUPLICATE_NAME\<close>: the skip counter goes up by one and nothing is raised. When it
  is the last file the loop returns without an exception; when another file
  follows, the body of the loop is run for that file from the state this one left,
  and the loop goes on from its result. The creation request is the last request
  made for the file: the uploaded file stays in the drive.
\<close>

theorem duplicate_reply_is_skipped:
  assumes "emoji_name_of (str_lower env) emoji_path = Inr emoji_name" and "emoji_dict emoji_name = None"
    and "answered (r_files_create env emoji_path folder_id (path_name emoji_path)
                    (mime_type_of env (path_name emoji_path)))
           (r_elapse env RATE_LIMIT_WAIT) (remote (world st)) n = Some (Success file_data, s1)"
    and "r_emoji_add env emoji_name (df_id file_data) (category opts) (license opts)
           (sensitive opts) (local_only opts) s1 = (Error e, s2)"
    and "code e = ''DUPLICATE_NAME''"
  shows "let upload = DriveFilesCreate emoji_path folder_id (path_name emoji_path)
                        (mime_type_of env (path_name emoji_path));
             st1 = st\<lparr>skipped_count := skipped_count st + 1,
                      world := \<lparr>remote = s2,
                                trace = trace (world st) @ retry_events upload n
                                  @ [Exchange upload Accepted,
                                     Exchange (EmojiAdd emoji_name (df_id file_data) (category opts)
                                                (license opts) (sensitive opts) (local_only opts))
                                       (Refused ''DUPLICATE_NAME'')]\<rparr>\<rparr>
         in upload_emoji env opts emoji_dict folder_id emoji_path st = Some (None, st1)
          \<and> upload_emojis env opts emoji_dict folder_id (emoji_path # rest) st
              = upload_emojis env opts emoji_dict folder_id rest st1
          \<and> upload_emojis env opts emoji_dict folder_id [emoji_path] st = Some (None, st1)
          \<and> upload_emojis env opts emoji_dict folder_id (emoji_path # following # rest) st
              = (case upload_emoji env opts emoji_dict folder_id following st1 of
                   None \<Rightarrow> None
                 | Some (Some err, st2) \<Rightarrow> Some (Some err, st2)
                 | Some (None, st2) \<Rightarrow> upload_emojis env opts emoji_dict folder_id rest st2)"
  using task_run [where d = emoji_dict, OF assms(1-4)] assms(5) by (simp add: Let_def reply_of_def)

theorem duplicate_reply_is_skipped_witness:
  "upload_emojis scripted opts0 Map.empty None [cat, dog]
     (fresh \<lparr>remote = silent\<lparr>upload_replies := [Success cat_file, Success dog_file],
                              add_replies := [Error duplicate, Success dog_emoji]\<rparr>,
             trace = []\<rparr>)
   = Some (None,
       \<lparr>success_count = 1, skipped_count = 1,
        world = \<lparr>remote = silent,
                 trace = [Exchange upload_cat Accepted,
                          Exchange add_cat (Refused ''DUPLICATE_NAME''),
                          Exchange (DriveFilesCreate dog None ''dog.png'' ''image/png'') Accepted,
                          Exchange (EmojiAdd ''dog'' ''f3'' ''animals'' ''CC0'' False False)
                            Accepted]\<rparr>\<rparr>)"
proof -
  let ?st = "fresh \<lparr>remote = silent\<lparr>upload_replies := [Success cat_file, Success dog_file],
                              add_replies := [Error duplicate, Success dog_emoji]\<rparr>,
             trace = []\<rparr>"
  let ?s1 = "silent\<lparr>upload_replies := [Success dog_file],
                    add_replies := [Error duplicate, Success dog_emoji]\<rparr>"
  let ?s2 = "silent\<lparr>upload_replies := [Success dog_file], add_replies := [Success dog_emoji]\<rparr>"
  let ?st1 = "\<lparr>success_count = 0, skipped_count = 1,
        world = \<lparr>remote = ?s2,
                 trace = [Exchange upload_cat Accepted,
                          Exchange add_cat (Refused ''DUPLICATE_NAME'')]\<rparr>\<rparr>"
  let ?st2 = "\<lparr>success_count = 1, skipped_count = 1,
        world = \<lparr>remote = silent,
                 trace = [Exchange upload_cat Accepted,
                          Exchange add_cat (Refused ''DUPLICATE_NAME''),
                          Exchange (DriveFilesCreate dog None ''dog.png'' ''image/png'') Accepted,
                          Exchange (EmojiAdd ''dog'' ''f3'' ''animals'' ''CC0'' False False)
                            Accepted]\<rparr>\<rparr>"
  have a: "answered (r_files_create scripted cat None (path_name cat)
                    (mime_type_of scripted (path_name cat)))
           (r_elapse scripted RATE_LIMIT_WAIT) (remote (world ?st)) 0
         = Some (Success cat_file, ?s1)"
    by (simp add: answered_def scripted_steps next_reply_def rate_limited_def fresh_def silent_def)
  have b: "r_emoji_add scripted ''cat'' (df_id cat_file) (category opts0) (license opts0)
           (sensitive opts0) (local_only opts0) ?s1 = (Error duplicate, ?s2)"
    by (simp add: scripted_steps next_reply_def silent_def)
  have c: "code duplicate = ''DUPLICATE_NAME''" by (simp add: duplicate_def)
  have "Map.empty ''cat'' = (None :: emoji option)" by simp
  note t = duplicate_reply_is_skipped [where emoji_dict = Map.empty and following = dog
      and rest = "[]", OF names_of_examples(1) this a b c, unfolded Let_def]
  from t [THEN conjunct2, THEN conjunct2, THEN conjunct2]
  have step: "upload_emojis scripted opts0 Map.empty None [cat, dog] ?st
      = (case upload_emoji scripted opts0 Map.empty None dog ?st1 of
           None \<Rightarrow> None
         | Some (Some err, st2) \<Rightarrow> Some (Some err, st2)
         | Some (None, st2) \<Rightarrow> upload_emojis scripted opts0 Map.empty None [] st2)"
    by (simp add: fresh_def names_of_examples mime_of_examples retry_events_def
        upload_cat_def add_cat_def cat_file_def opts0_def del: upload_emojis.simps)
  have m: "mime_type_of scripted ''dog.png'' = ''image/png''"
    by (simp add: mime_type_of_def scripted_def png_or_unknown_def)
  have a': "answered (r_files_create scripted dog None (path_name dog)
                    (mime_type_of scripted (path_name dog)))
           (r_elapse scripted RATE_LIMIT_WAIT) (remote (world ?st1)) 0
         = Some (Success dog_file, silent\<lparr>add_replies := [Success dog_emoji]\<rparr>)"
    by (simp add: answered_def scripted_steps next_reply_def rate_limited_def silent_def)
  have b': "r_emoji_add scripted ''dog'' (df_id dog_file) (category opts0) (license opts0)
           (sensitive opts0) (local_only opts0) (silent\<lparr>add_replies := [Success dog_emoji]\<rparr>)
         = (Success dog_emoji, silent)"
    by (simp add: scripted_steps next_reply_def silent_def)
  have d: "upload_emoji scripted opts0 Map.empty None dog ?st1 = Some (None, ?st2)"
    using task_run [where d = Map.empty, OF names_of_examples(2) _ a' b']
    by (simp add: Let_def reply_of_def retry_events_def names_of_examples m dog_file_def
        opts0_def)
  show ?thesis
    by (simp only: step d option.case prod.case upload_emojis.simps(1))
qed

section \<open>The whole run\<close>

lemma start_phases:
  assumes "emojis_get_current_list env w = (Inr es, w1)"
    and "target_folder env opts w1 = Some (Inr folder_id, w2)"
  shows "start env ps opts w =
     (case upload_emojis env opts (emoji_dict_of es) folder_id ps
             \<lparr>success_count = 0, skipped_count = 0, world = w2\<rparr> of
        None \<Rightarrow> None
      | Some (Some err, st1) \<Rightarrow> Some (Inl err, st1)
      | Some (None, st1) \<Rightarrow>
          Some (Inr \<lparr>total = length ps, succeeded = success_count st1,
                     skipped = skipped_count st1\<rparr>, st1))"
  by (simp add: start_def assms Let_def)

lemma start_counts:
  assumes "start env ps opts w = Some (res, st')"
  shows "success_count st' + skipped_count st' \<le> length ps
       \<and> (\<forall>sm. res = Inr sm \<longrightarrow> total sm = length ps \<and> succeeded sm = success_count st'
              \<and> skipped sm = skipped_count st' \<and> succeeded sm + skipped sm = total sm)"
proof (cases "emojis_get_current_list env w")
  case (Pair r1 w1)
  show ?thesis
  proof (cases r1)
    case (Inl err)
    with Pair assms show ?thesis by (auto simp: start_def)
  next
    case (Inr es)
    note es = this
    show ?thesis
    proof (cases "target_folder env opts w1")
      case None
      with Pair es assms show ?thesis by (simp add: start_def)
    next
      case (Some a)
      obtain r2 w2 where a: "a = (r2, w2)" by (cases a)
      show ?thesis
      proof (cases r2)
        case (Inl err)
        with Pair es Some a assms show ?thesis by (auto simp: start_def)
      next
        case (Inr folder_id)
        let ?st = "\<lparr>success_count = 0, skipped_count = 0, world = w2\<rparr>"
        from assms Pair es Some a Inr obtain r3 where
          l: "upload_emojis env opts (emoji_dict_of es) folder_id ps ?st = Some (r3, st')"
          and res: "res = (case r3 of Some err \<Rightarrow> Inl err
                      | None \<Rightarrow> Inr \<lparr>total = length ps, succeeded = success_count st',
                                 skipped = skipped_count st'\<rparr>)"
          by (auto simp: start_def split: option.splits)
        from loop_counts [OF l] res show ?thesis by (cases r3) auto
      qed
    qed
  qed
qed

text \<open>
  C4. Each file that raises nothing adds one to exactly one of the two counters, and a
  file that raises adds nothing. The state after any number of files is the state
  the loop reaches on that prefix of the list, so at every point of a run the two
  counters together are at most the number of files; they are equal to it when the
  loop ends without an exception, and \<^verbatim>\<open>start\<close> reports these counters.
\<close>

theorem counters_account_for_files:
  "(upload_emoji env opts emoji_dict folder_id emoji_path st = Some (r, st')
      \<longrightarrow> (r = None \<and> (success_count st' = success_count st + 1
                         \<and> skipped_count st' = skipped_count st
                       \<or> success_count st' = success_count st
                         \<and> skipped_count st' = skipped_count st + 1))
        \<or> (\<exists>err. r = Some err \<and> success_count st' = success_count st
              \<and> skipped_count st' = skipped_count st))
   \<and> (upload_emojis env opts emoji_dict folder_id emoji_path_list st0 = Some (r0, st1)
      \<longrightarrow> success_count st1 + skipped_count st1
            \<le> success_count st0 + skipped_count st0 + length emoji_path_list
        \<and> (r0 = None \<longrightarrow> success_count st1 + skipped_count st1
              = success_count st0 + skipped_count st0 + length emoji_path_list))
   \<and> upload_emojis env opts emoji_dict folder_id (before @ after) st0
       = (case upload_emojis env opts emoji_dict folder_id before st0 of
            None \<Rightarrow> None
          | Some (Some err, st2) \<Rightarrow> Some (Some err, st2)
          | Some (None, st2) \<Rightarrow> upload_emojis env opts emoji_dict folder_id after st2)
   \<and> (start env emoji_path_list opts w = Some (res, st3)
      \<longrightarrow> success_count st3 + skipped_count st3 \<le> length emoji_path_list
        \<and> (\<forall>sm. res = Inr sm \<longrightarrow> total sm = length emoji_path_list
               \<and> succeeded sm = success_count st3 \<and> skipped sm = skipped_count st3
               \<and> succeeded sm + skipped sm = total sm))"
  using task_counts [of env opts emoji_dict folder_id emoji_path st r st']
    loop_counts [of env opts emoji_dict folder_id emoji_path_list st0 r0 st1]
    upload_emojis_append [of env opts emoji_dict folder_id before after st0]
    start_counts [of env emoji_path_list opts w res st3]
  by blast

lemma cat_then_dog:
  "upload_emoji scripted opts0 (emoji_dict_of [dog_emoji]) None dog
      \<lparr>success_count = 1, skipped_count = 0, world = cat_added\<rparr>
    = Some (None, \<lparr>success_count = 1, skipped_count = 1, world = cat_added\<rparr>)"
  "upload_emojis scripted opts0 (emoji_dict_of [dog_emoji]) None [cat, dog]
      \<lparr>success_count = 0, skipped_count = 0,
       world = \<lparr>remote = silent\<lparr>upload_replies := [Success cat_file],
                                  add_replies := [Success cat_emoji]\<rparr>,
                trace = [Exchange Emojis Accepted]\<rparr>\<rparr>
    = Some (None, \<lparr>success_count = 1, skipped_count = 1, world = cat_added\<rparr>)"
  "start scripted [cat, dog] opts0 dog_known
    = Some (Inr \<lparr>total = 2, succeeded = 1, skipped = 1\<rparr>,
            \<lparr>success_count = 1, skipped_count = 1, world = cat_added\<rparr>)"
proof -
  let ?s1 = "silent\<lparr>upload_replies := [Success cat_file], add_replies := [Success cat_emoji]\<rparr>"
  let ?w1 = "\<lparr>remote = ?s1, trace = [Exchange Emojis Accepted]\<rparr>"
  let ?st = "\<lparr>success_count = 0, skipped_count = 0, world = ?w1\<rparr>"
  have e: "emojis_get_current_list scripted dog_known = (Inr [dog_emoji], ?w1)"
    by (simp add: emojis_get_current_list_def exchange_def scripted_steps next_reply_def
        reply_of_def silent_def dog_known_def)
  have t: "target_folder scripted opts0 ?w1 = Some (Inr None, ?w1)"
    by (simp add: target_folder_def opts0_def)
  have d: "emoji_dict_of [dog_emoji] ''cat'' = None" "emoji_dict_of [dog_emoji] ''dog'' \<noteq> None"
    by (simp_all add: emoji_dict_of_def dog_emoji_def)
  have a: "answered (r_files_create scripted cat None (path_name cat)
                    (mime_type_of scripted (path_name cat)))
           (r_elapse scripted RATE_LIMIT_WAIT) (remote (world ?st)) 0
         = Some (Success cat_file, silent\<lparr>add_replies := [Success cat_emoji]\<rparr>)"
    by (simp add: answered_def scripted_steps next_reply_def rate_limited_def silent_def)
  have b: "r_emoji_add scripted ''cat'' (df_id cat_file) (category opts0) (license opts0)
           (sensitive opts0) (local_only opts0) (silent\<lparr>add_replies := [Success cat_emoji]\<rparr>)
         = (Success cat_emoji, silent)"
    by (simp add: scripted_steps next_reply_def silent_def)
  have c: "upload_emoji scripted opts0 (emoji_dict_of [dog_emoji]) None cat ?st
      = Some (None, \<lparr>success_count = 1, skipped_count = 0, world = cat_added\<rparr>)"
    using task_run [where d = "emoji_dict_of [dog_emoji]", OF names_of_examples(1) d(1) a b]
    by (simp add: Let_def reply_of_def retry_events_def names_of_examples mime_of_examples
        upload_cat_def add_cat_def cat_file_def opts0_def cat_added_def)
  show g: "upload_emoji scripted opts0 (emoji_dict_of [dog_emoji]) None dog
             \<lparr>success_count = 1, skipped_count = 0, world = cat_added\<rparr>
      = Some (None, \<lparr>success_count = 1, skipped_count = 1, world = cat_added\<rparr>)"
    by (simp add: task_skipped [where d = "emoji_dict_of [dog_emoji]", OF names_of_examples(2) d(2)])
  show l: "upload_emojis scripted opts0 (emoji_dict_of [dog_emoji]) None [cat, dog] ?st
      = Some (None, \<lparr>success_count = 1, skipped_count = 1, world = cat_added\<rparr>)"
    by (simp only: upload_emojis.simps c g option.case prod.case)
  then show "start scripted [cat, dog] opts0 dog_known
    = Some (Inr \<lparr>total = 2, succeeded = 1, skipped = 1\<rparr>,
            \<lparr>success_count = 1, skipped_count = 1, world = cat_added\<rparr>)"
    by (simp add: start_phases [OF e t])
qed

theorem counters_account_for_files_witness:
  "start scripted [cat, dog] opts0 dog_known
     = Some (Inr \<lparr>total = 2, succeeded = 1, skipped = 1\<rparr>,
             \<lparr>success_count = 1, skipped_count = 1, world = cat_added\<rparr>)
   \<and> success_count \<lparr>success_count = 1, skipped_count = 1, world = cat_added\<rparr>
     + skipped_count \<lparr>success_count = 1, skipped_count = 1, world = cat_added\<rparr>
     = length [cat, dog]
   \<and> succeeded \<lparr>total = 2, succeeded = 1, skipped = 1\<rparr>
     + skipped \<lparr>total = 2, succeeded = 1, skipped = 1\<rparr>
     = total \<lparr>total = 2, succeeded = 1, skipped = 1\<rparr>"
proof -
  let ?final = "\<lparr>success_count = 1, skipped_count = 1, world = cat_added\<rparr>"
  let ?st0 = "\<lparr>success_count = 0, skipped_count = 0,
       world = \<lparr>remote = silent\<lparr>upload_replies := [Success cat_file],
                                  add_replies := [Success cat_emoji]\<rparr>,
                trace = [Exchange Emojis Accepted]\<rparr>\<rparr>"
  note c = counters_account_for_files [of scripted opts0 "emoji_dict_of [dog_emoji]" None dog
      "\<lparr>success_count = 1, skipped_count = 0, world = cat_added\<rparr>" None ?final
      "[cat, dog]" ?st0 None ?final "[cat]" "[dog]" dog_known
      "Inr \<lparr>total = 2, succeeded = 1, skipped = 1\<rparr>" ?final]
  from c cat_then_dog(2) have "success_count ?final + skipped_count ?final
      = success_count ?st0 + skipped_count ?st0 + length [cat, dog]"
    by blast
  moreover from c cat_then_dog(3) have
    "succeeded \<lparr>total = 2, succeeded = 1, skipped = 1\<rparr>
       + skipped \<lparr>total = 2, succeeded = 1, skipped = 1\<rparr>
     = total \<lparr>total = 2, succeeded = 1, skipped = 1\<rparr>"
    by blast
  ultimately show ?thesis using cat_then_dog(3) by simp
qed

lemma task_aborts_loop:
  assumes "upload_emojis env opts d fid before st0 = Some (None, st)"
    and "upload_emoji env opts d fid p st = Some (Some err, st1)"
  shows "upload_emojis env opts d fid (before @ p # rest) st0 = Some (Some err, st1)"
  by (simp add: upload_emojis_append assms)

text \<open>
  C7. After any files that went through, a file whose name is not in the index and
  whose upload is refused with an error other than the rate limit, or whose emoji
  creation is refused with an error other than \<open>DUPLICATE_NAME\<close>, ends the run:
  \<^verbatim>\<open>start\<close> raises a \<^verbatim>\<open>RuntimeError\<close> with the error object of the reply, the refused
  request is the last entry of the log, and the files after it play no part.
\<close>

theorem other_error_aborts_run:
  assumes "emojis_get_current_list env w = (Inr current_emojis, w1)"
    and "target_folder env opts w1 = Some (Inr folder_id, w2)"
    and "upload_emojis env opts (emoji_dict_of current_emojis) folder_id before
           \<lparr>success_count = 0, skipped_count = 0, world = w2\<rparr> = Some (None, st)"
    and "emoji_name_of (str_lower env) emoji_path = Inr emoji_name"
    and "emoji_dict_of current_emojis emoji_name = None"
  shows "(answered (r_files_create env emoji_path folder_id (path_name emoji_path)
                     (mime_type_of env (path_name emoji_path)))
            (r_elapse env RATE_LIMIT_WAIT) (remote (world st)) n = Some (Error e, s1)
          \<longrightarrow> start env (before @ emoji_path # rest) opts w
              = Some (Inl (RuntimeError e),
                  st\<lparr>world := settle (DriveFilesCreate emoji_path folder_id (path_name emoji_path)
                                       (mime_type_of env (path_name emoji_path)))
                                 (Refused (code e)) s1 n (world st)\<rparr>))
       \<and> (answered (r_files_create env emoji_path folder_id (path_name emoji_path)
                     (mime_type_of env (path_name emoji_path)))
            (r_elapse env RATE_LIMIT_WAIT) (remote (world st)) n = Some (Success file_data, s1)
          \<and> r_emoji_add env emoji_name (df_id file_data) (category opts) (license opts)
              (sensitive opts) (local_only opts) s1 = (Error e, s2)
          \<and> code e \<noteq> ''DUPLICATE_NAME''
          \<longrightarrow> start env (before @ emoji_path # rest) opts w
              = Some (Inl (RuntimeError e),
                  st\<lparr>world := \<lparr>remote = s2,
                       trace = trace (world st)
                         @ retry_events (DriveFilesCreate emoji_path folder_id (path_name emoji_path)
                                          (mime_type_of env (path_name emoji_path))) n
                         @ [Exchange (DriveFilesCreate emoji_path folder_id (path_name emoji_path)
                                       (mime_type_of env (path_name emoji_path))) Accepted,
                            Exchange (EmojiAdd emoji_name (df_id file_data) (category opts)
                                       (license opts) (sensitive opts) (local_only opts))
                              (Refused (code e))]\<rparr>\<rparr>))"
proof (intro conjI impI)
  assume a: "answered (r_files_create env emoji_path folder_id (path_name emoji_path)
                     (mime_type_of env (path_name emoji_path)))
            (r_elapse env RATE_LIMIT_WAIT) (remote (world st)) n = Some (Error e, s1)"
  from task_aborts_loop [OF assms(3)
      task_upload_refused [where d = "emoji_dict_of current_emojis", OF assms(4,5) a]]
  show "start env (before @ emoji_path # rest) opts w
              = Some (Inl (RuntimeError e),
                  st\<lparr>world := settle (DriveFilesCreate emoji_path folder_id (path_name emoji_path)
                                       (mime_type_of env (path_name emoji_path)))
                                 (Refused (code e)) s1 n (world st)\<rparr>)"
    by (simp add: start_phases [OF assms(1,2)])
next
  assume "answered (r_files_create env emoji_path folder_id (path_name emoji_path)
                     (mime_type_of env (path_name emoji_path)))
            (r_elapse env RATE_LIMIT_WAIT) (remote (world st)) n = Some (Success file_data, s1)
          \<and> r_emoji_add env emoji_name (df_id file_data) (category opts) (license opts)
              (sensitive opts) (local_only opts) s1 = (Error e, s2)
          \<and> code e \<noteq> ''DUPLICATE_NAME''"
  then have a: "answered (r_files_create env emoji_path folder_id (path_name emoji_path)
                     (mime_type_of env (path_name emoji_path)))
            (r_elapse env RATE_LIMIT_WAIT) (remote (world st)) n = Some (Success file_data, s1)"
    and b: "r_emoji_add env emoji_name (df_id file_data) (category opts) (license opts)
              (sensitive opts) (local_only opts) s1 = (Error e, s2)"
    and c: "code e \<noteq> ''DUPLICATE_NAME''"
    by simp_all
  let ?st1 = "st\<lparr>world := \<lparr>remote = s2,
                       trace = trace (world st)
                         @ retry_events (DriveFilesCreate emoji_path folder_id (path_name emoji_path)
                                          (mime_type_of env (path_name emoji_path))) n
                         @ [Exchange (DriveFilesCreate emoji_path folder_id (path_name emoji_path)
                                       (mime_type_of env (path_name emoji_path))) Accepted,
                            Exchange (EmojiAdd emoji_name (df_id file_data) (category opts)
                                       (license opts) (sensitive opts) (local_only opts))
                              (Refused (code e))]\<rparr>\<rparr>"
  have "upload_emoji env opts (emoji_dict_of current_emojis) folder_id emoji_path st
      = Some (Some (RuntimeError e), ?st1)"
    using task_run [where d = "emoji_dict_of current_emojis", OF assms(4,5) a b] c
    by (simp add: Let_def reply_of_def)
  from task_aborts_loop [OF assms(3) this]
  show "start env (before @ emoji_path # rest) opts w = Some (Inl (RuntimeError e), ?st1)"
    by (simp add: start_phases [OF assms(1,2)])
qed


lemma dog_skipped:
  "upload_emojis scripted opts0 (emoji_dict_of [dog_emoji]) None [dog]
     \<lparr>success_count = 0, skipped_count = 0, world = w\<rparr>
   = Some (None, \<lparr>success_count = 0, skipped_count = 1, world = w\<rparr>)"
proof -
  have "emoji_dict_of [dog_emoji] ''dog'' \<noteq> None"
    by (simp add: emoji_dict_of_def dog_emoji_def)
  then show ?thesis
    by (simp add: task_skipped [where d = "emoji_dict_of [dog_emoji]", OF names_of_examples(2)])
qed

lemma dog_listed:
  "emojis_get_current_list scripted
     \<lparr>remote = s\<lparr>emojis_replies := [Success [dog_emoji]]\<rparr>, trace = []\<rparr>
   = (Inr [dog_emoji], \<lparr>remote = s\<lparr>emojis_replies := []\<rparr>, trace = [Exchange Emojis Accepted]\<rparr>)"
  by (simp add: emojis_get_current_list_def exchange_def scripted_steps next_reply_def reply_of_def)

lemma no_drive_path: "target_folder env opts0 w = Some (Inr None, w)"
  by (simp add: target_folder_def opts0_def)

lemma cat_unknown: "emoji_dict_of [dog_emoji] ''cat'' = None"
  by (simp add: emoji_dict_of_def dog_emoji_def)

theorem other_error_aborts_run_witness:
  "start scripted [dog, cat, foo_bar] opts0
     \<lparr>remote = silent\<lparr>upload_replies := [Error rate_limit, Error denied],
                      emojis_replies := [Success [dog_emoji]]\<rparr>, trace = []\<rparr>
   = Some (Inl (RuntimeError denied),
       \<lparr>success_count = 0, skipped_count = 1,
        world = \<lparr>remote = silent,
                 trace = [Exchange Emojis Accepted,
                          Exchange upload_cat (Refused ''RATE_LIMIT_EXCEEDED''), Sleep 60,
                          Exchange upload_cat (Refused ''NO_FREE_SPACE'')]\<rparr>\<rparr>)
   \<and> start scripted [dog, cat, foo_bar] opts0
     \<lparr>remote = silent\<lparr>upload_replies := [Success cat_file], add_replies := [Error denied],
                      emojis_replies := [Success [dog_emoji]]\<rparr>, trace = []\<rparr>
   = Some (Inl (RuntimeError denied),
       \<lparr>success_count = 0, skipped_count = 1,
        world = \<lparr>remote = silent,
                 trace = [Exchange Emojis Accepted, Exchange upload_cat Accepted,
                          Exchange add_cat (Refused ''NO_FREE_SPACE'')]\<rparr>\<rparr>)"
proof -
  let ?sa = "silent\<lparr>upload_replies := [Error rate_limit, Error denied]\<rparr>"
  let ?sb = "silent\<lparr>upload_replies := [Success cat_file], add_replies := [Error denied]\<rparr>"
  let ?wa = "\<lparr>remote = ?sa\<lparr>emojis_replies := []\<rparr>, trace = [Exchange Emojis Accepted]\<rparr>"
  let ?wb = "\<lparr>remote = ?sb\<lparr>emojis_replies := []\<rparr>, trace = [Exchange Emojis Accepted]\<rparr>"
  have a: "answered (r_files_create scripted cat None (path_name cat)
                     (mime_type_of scripted (path_name cat)))
            (r_elapse scripted RATE_LIMIT_WAIT)
            (remote (world \<lparr>success_count = 0, skipped_count = 1, world = ?wa\<rparr>)) (Suc 0)
           = Some (Error denied, silent)"
    by (simp add: answered_def scripted_steps next_reply_def rate_limited_def silent_def
        rate_limit_def denied_def)
  have b: "answered (r_files_create scripted cat None (path_name cat)
                     (mime_type_of scripted (path_name cat)))
            (r_elapse scripted RATE_LIMIT_WAIT)
            (remote (world \<lparr>success_count = 0, skipped_count = 1, world = ?wb\<rparr>)) 0
           = Some (Success cat_file, silent\<lparr>add_replies := [Error denied]\<rparr>)
          \<and> r_emoji_add scripted ''cat'' (df_id cat_file) (category opts0) (license opts0)
              (sensitive opts0) (local_only opts0) (silent\<lparr>add_replies := [Error denied]\<rparr>)
            = (Error denied, silent)
          \<and> code denied \<noteq> ''DUPLICATE_NAME''"
    by (simp add: answered_def scripted_steps next_reply_def rate_limited_def silent_def
        denied_def)
  from other_error_aborts_run [OF dog_listed [of ?sa] no_drive_path dog_skipped names_of_examples(1)
      cat_unknown, where n = "Suc 0" and e = denied and ?s1.0 = silent
      and rest = "[foo_bar]"] a
  have "start scripted ([dog] @ cat # [foo_bar]) opts0
          \<lparr>remote = ?sa\<lparr>emojis_replies := [Success [dog_emoji]]\<rparr>, trace = []\<rparr>
        = Some (Inl (RuntimeError denied),
            \<lparr>success_count = 0, skipped_count = 1, world = ?wa\<rparr>
              \<lparr>world := settle (DriveFilesCreate cat None (path_name cat)
                                 (mime_type_of scripted (path_name cat)))
                           (Refused (code denied)) silent (Suc 0)
                           (world \<lparr>success_count = 0, skipped_count = 1, world = ?wa\<rparr>)\<rparr>)"
    by blast
  moreover
  from other_error_aborts_run [OF dog_listed [of ?sb] no_drive_path dog_skipped names_of_examples(1)
      cat_unknown, where n = 0 and e = denied and ?s1.0 = "silent\<lparr>add_replies := [Error denied]\<rparr>"
      and file_data = cat_file and ?s2.0 = silent and rest = "[foo_bar]"] b
  have "start scripted ([dog] @ cat # [foo_bar]) opts0
          \<lparr>remote = ?sb\<lparr>emojis_replies := [Success [dog_emoji]]\<rparr>, trace = []\<rparr>
        = Some (Inl (RuntimeError denied),
            \<lparr>success_count = 0, skipped_count = 1, world = ?wb\<rparr>
              \<lparr>world := \<lparr>remote = silent,
                 trace = trace (world \<lparr>success_count = 0, skipped_count = 1, world = ?wb\<rparr>)
                         @ retry_events (DriveFilesCreate cat None (path_name cat)
                                          (mime_type_of scripted (path_name cat))) 0
                         @ [Exchange (DriveFilesCreate cat None (path_name cat)
                                       (mime_type_of scripted (path_name cat))) Accepted,
                            Exchange (EmojiAdd ''cat'' (df_id cat_file) (category opts0)
                                       (license opts0) (sensitive opts0) (local_only opts0))
                              (Refused (code denied))]\<rparr>\<rparr>)"
    by blast
  ultimately show ?thesis
    by (simp add: settle_def retry_events_def names_of_examples mime_of_examples upload_cat_def
        add_cat_def cat_file_def opts0_def denied_def RATE_LIMIT_WAIT_def silent_def)
qed

text \<open>
  C2, as the code has it. \<^verbatim>\<open>emoji_add\<close> sends one request and \<^verbatim>\<open>start\<close> treats every
  error of its reply but \<open>DUPLICATE_NAME\<close> alike: when the creation is refused with a
  rate-limit error, the file's single creation request is the last entry of the log
  (no sleep, no second attempt), neither counter moves, and the loop ends with a
  \<^verbatim>\<open>RuntimeError\<close> carrying the rate-limit error, whatever files follow. Only the
  upload before it is retried.
\<close>

theorem rate_limit_at_creation_is_fatal:
  assumes "emoji_name_of (str_lower env) emoji_path = Inr emoji_name" and "emoji_dict emoji_name = None"
    and "answered (r_files_create env emoji_path folder_id (path_name emoji_path)
                    (mime_type_of env (path_name emoji_path)))
           (r_elapse env RATE_LIMIT_WAIT) (remote (world st)) n = Some (Success file_data, s1)"
    and "r_emoji_add env emoji_name (df_id file_data) (category opts) (license opts)
           (sensitive opts) (local_only opts) s1 = (Error e, s2)"
    and "code e = ''RATE_LIMIT_EXCEEDED''"
  shows "let upload = DriveFilesCreate emoji_path folder_id (path_name emoji_path)
                        (mime_type_of env (path_name emoji_path));
             st1 = st\<lparr>world := \<lparr>remote = s2,
                                trace = trace (world st) @ retry_events upload n
                                  @ [Exchange upload Accepted,
                                     Exchange (EmojiAdd emoji_name (df_id file_data) (category opts)
                                                (license opts) (sensitive opts) (local_only opts))
                                       (Refused ''RATE_LIMIT_EXCEEDED'')]\<rparr>\<rparr>
         in upload_emoji env opts emoji_dict folder_id emoji_path st
              = Some (Some (RuntimeError e), st1)
          \<and> upload_emojis env opts emoji_dict folder_id (emoji_path # rest) st
              = Some (Some (RuntimeError e), st1)
          \<and> success_count st1 = success_count st \<and> skipped_count st1 = skipped_count st"
  using task_run [where d = emoji_dict, OF assms(1-4)] assms(5)
  by (simp add: Let_def reply_of_def)

theorem rate_limit_at_creation_is_fatal_witness:
  "upload_emojis scripted opts0 Map.empty None [cat, dog]
     (fresh \<lparr>remote = silent\<lparr>upload_replies := [Error rate_limit, Success cat_file],
                              add_replies := [Error rate_limit, Success cat_emoji]\<rparr>,
             trace = []\<rparr>)
   = Some (Some (RuntimeError rate_limit),
       \<lparr>success_count = 0, skipped_count = 0,
        world = \<lparr>remote = silent\<lparr>add_replies := [Success cat_emoji]\<rparr>,
                 trace = [Exchange upload_cat (Refused ''RATE_LIMIT_EXCEEDED''), Sleep 60,
                          Exchange upload_cat Accepted,
                          Exchange add_cat (Refused ''RATE_LIMIT_EXCEEDED'')]\<rparr>\<rparr>)"
proof -
  let ?st = "fresh \<lparr>remote = silent\<lparr>upload_replies := [Error rate_limit, Success cat_file],
                              add_replies := [Error rate_limit, Success cat_emoji]\<rparr>,
             trace = []\<rparr>"
  have a: "answered (r_files_create scripted cat None (path_name cat)
                    (mime_type_of scripted (path_name cat)))
           (r_elapse scripted RATE_LIMIT_WAIT) (remote (world ?st)) (Suc 0)
         = Some (Success cat_file,
                 silent\<lparr>add_replies := [Error rate_limit, Success cat_emoji]\<rparr>)"
    by (simp add: answered_def scripted_steps next_reply_def rate_limited_def fresh_def
        silent_def rate_limit_def)
  have b: "r_emoji_add scripted ''cat'' (df_id cat_file) (category opts0) (license opts0)
           (sensitive opts0) (local_only opts0)
           (silent\<lparr>add_replies := [Error rate_limit, Success cat_emoji]\<rparr>)
         = (Error rate_limit, silent\<lparr>add_replies := [Success cat_emoji]\<rparr>)"
    by (simp add: scripted_steps next_reply_def silent_def)
  have c: "code rate_limit = ''RATE_LIMIT_EXCEEDED''" by (simp add: rate_limit_def)
  from rate_limit_at_creation_is_fatal [where emoji_dict = Map.empty and rest = "[dog]",
      OF names_of_examples(1) _ a b c]
  show ?thesis
    by (simp add: Let_def fresh_def names_of_examples mime_of_examples retry_events_def
        upload_cat_def add_cat_def cat_file_def opts0_def RATE_LIMIT_WAIT_def)
qed

text \<open>
  The claim of C2 fails on the code: the service refuses the first creation of \<open>cat\<close>
  with a rate-limit error and would accept the second, yet the run ends with that
  error, nothing is counted as created, and the log has one creation request and no
  sleep.
\<close>

theorem rate_limit_at_creation_counterexample:
  "start scripted [cat] opts0
     \<lparr>remote = silent\<lparr>upload_replies := [Success cat_file],
                      add_replies := [Error rate_limit, Success cat_emoji],
                      emojis_replies := [Success []]\<rparr>, trace = []\<rparr>
   = Some (Inl (RuntimeError rate_limit),
       \<lparr>success_count = 0, skipped_count = 0,
        world = \<lparr>remote = silent\<lparr>add_replies := [Success cat_emoji]\<rparr>,
                 trace = [Exchange Emojis Accepted, Exchange upload_cat Accepted,
                          Exchange add_cat (Refused ''RATE_LIMIT_EXCEEDED'')]\<rparr>\<rparr>)"
proof -
  let ?s0 = "silent\<lparr>upload_replies := [Success cat_file],
                      add_replies := [Error rate_limit, Success cat_emoji]\<rparr>"
  let ?w1 = "\<lparr>remote = ?s0\<lparr>emojis_replies := []\<rparr>, trace = [Exchange Emojis Accepted]\<rparr>"
  let ?st = "\<lparr>success_count = 0, skipped_count = 0, world = ?w1\<rparr>"
  have e: "emojis_get_current_list scripted
      \<lparr>remote = ?s0\<lparr>emojis_replies := [Success []]\<rparr>, trace = []\<rparr> = (Inr [], ?w1)"
    by (simp add: emojis_get_current_list_def exchange_def scripted_steps next_reply_def
        reply_of_def)
  have a: "answered (r_files_create scripted cat None (path_name cat)
                    (mime_type_of scripted (path_name cat)))
           (r_elapse scripted RATE_LIMIT_WAIT) (remote (world ?st)) 0
         = Some (Success cat_file,
                 silent\<lparr>add_replies := [Error rate_limit, Success cat_emoji]\<rparr>)"
    by (simp add: answered_def scripted_steps next_reply_def rate_limited_def silent_def)
  have b: "r_emoji_add scripted ''cat'' (df_id cat_file) (category opts0) (license opts0)
           (sensitive opts0) (local_only opts0)
           (silent\<lparr>add_replies := [Error rate_limit, Success cat_emoji]\<rparr>)
         = (Error rate_limit, silent\<lparr>add_replies := [Success cat_emoji]\<rparr>)"
    by (simp add: scripted_steps next_reply_def silent_def)
  have d: "emoji_dict_of [] ''cat'' = None" by (simp add: emoji_dict_of_def)
  have "upload_emoji scripted opts0 (emoji_dict_of []) None cat ?st
      = Some (Some (RuntimeError rate_limit),
          \<lparr>success_count = 0, skipped_count = 0,
        world = \<lparr>remote = silent\<lparr>add_replies := [Success cat_emoji]\<rparr>,
                 trace = [Exchange Emojis Accepted, Exchange upload_cat Accepted,
                          Exchange add_cat (Refused ''RATE_LIMIT_EXCEEDED'')]\<rparr>\<rparr>)"
    using task_run [where d = "emoji_dict_of []", OF names_of_examples(1) d a b]
    by (simp add: Let_def reply_of_def retry_events_def names_of_examples mime_of_examples
        upload_cat_def add_cat_def cat_file_def opts0_def rate_limit_def)
  then have "upload_emojis scripted opts0 (emoji_dict_of []) None [cat] ?st
      = Some (Some (RuntimeError rate_limit),
          \<lparr>success_count = 0, skipped_count = 0,
        world = \<lparr>remote = silent\<lparr>add_replies := [Success cat_emoji]\<rparr>,
                 trace = [Exchange Emojis Accepted, Exchange upload_cat Accepted,
                          Exchange add_cat (Refused ''RATE_LIMIT_EXCEEDED'')]\<rparr>\<rparr>)"
    by (simp only: upload_emojis.simps option.case prod.case)
  then have "start scripted [cat] opts0
      \<lparr>remote = ?s0\<lparr>emojis_replies := [Success []]\<rparr>, trace = []\<rparr>
     = Some (Inl (RuntimeError rate_limit),
          \<lparr>success_count = 0, skipped_count = 0,
        world = \<lparr>remote = silent\<lparr>add_replies := [Success cat_emoji]\<rparr>,
                 trace = [Exchange Emojis Accepted, Exchange upload_cat Accepted,
                          Exchange add_cat (Refused ''RATE_LIMIT_EXCEEDED'')]\<rparr>\<rparr>)"
    by (simp only: start_phases [OF e no_drive_path] option.case prod.case)
  then show ?thesis by (simp add: silent_def)
qed

section \<open>Names on the wire\<close>

lemma emoji_name_no_dot:
  assumes "emoji_name_of L p = Inr nm"
  shows "CHR ''.'' \<notin> set nm"
proof -
  let ?t = "takeWhile (\<lambda>c. c \<noteq> CHR ''.'') (path_name p)"
  from assms emoji_name_text [of L p]
  have nm: "nm = map (\<lambda>c. if c = CHR ''-'' then CHR ''_'' else c) (lower_with L ?t)"
    by (simp add: replace_char_def)
  have "CHR ''.'' \<notin> set ?t"
    by (auto dest: set_takeWhileD)
  then have "CHR ''.'' \<notin> set (lower_with L ?t)"
    by (rule lowering_no_dot)
  then show ?thesis
    unfolding nm by auto
qed

text \<open>
  C10. For a file whose name is not in the index, every upload request carries the
  path's final component as it is (\<^verbatim>\<open>emoji_path.name\<close>, with the MIME type guessed
  from it), and the creation request that follows an accepted upload carries the
  derived emoji name and the id of the uploaded file. The two names differ whenever
  the file name has a dot.
\<close>

theorem upload_keeps_file_name:
  assumes "emoji_name_of (str_lower env) emoji_path = Inr emoji_name" and "emoji_dict emoji_name = None"
    and "answered (r_files_create env emoji_path folder_id (path_name emoji_path)
                    (mime_type_of env (path_name emoji_path)))
           (r_elapse env RATE_LIMIT_WAIT) (remote (world st)) n = Some (fdata, s1)"
  shows "\<exists>r st1 more.
           upload_emoji env opts emoji_dict folder_id emoji_path st = Some (r, st1)
         \<and> trace (world st1)
             = trace (world st)
               @ retry_events (DriveFilesCreate emoji_path folder_id (path_name emoji_path)
                                (mime_type_of env (path_name emoji_path))) n
               @ Exchange (DriveFilesCreate emoji_path folder_id (path_name emoji_path)
                            (mime_type_of env (path_name emoji_path))) (reply_of fdata) # more
         \<and> (case fdata of
               Error e \<Rightarrow> more = []
             | Success file_data \<Rightarrow>
                 (\<exists>rep. more = [Exchange (EmojiAdd emoji_name (df_id file_data) (category opts)
                                          (license opts) (sensitive opts) (local_only opts)) rep]))
         \<and> (CHR ''.'' \<in> set (path_name emoji_path) \<longrightarrow> emoji_name \<noteq> path_name emoji_path)"
proof (cases fdata)
  case (Error e)
  from task_upload_refused [where d = emoji_dict, OF assms(1,2) assms(3) [unfolded Error]]
    emoji_name_no_dot [OF assms(1)] Error
  show ?thesis by (auto simp: settle_def reply_of_def)
next
  case (Success file_data)
  obtain adata s2 where b: "r_emoji_add env emoji_name (df_id file_data) (category opts)
      (license opts) (sensitive opts) (local_only opts) s1 = (adata, s2)"
    by (cases "r_emoji_add env emoji_name (df_id file_data) (category opts)
      (license opts) (sensitive opts) (local_only opts) s1")
  from task_run [where d = emoji_dict, OF assms(1,2) assms(3) [unfolded Success] b]
    emoji_name_no_dot [OF assms(1)] Success
  show ?thesis
    by (cases adata) (auto simp: Let_def reply_of_def)
qed


theorem upload_keeps_file_name_witness:
  "\<exists>r st1 rep.
      upload_emoji scripted opts0 Map.empty None foo_bar
        (fresh \<lparr>remote = silent\<lparr>upload_replies := [Success foo_file]\<rparr>, trace = []\<rparr>)
        = Some (r, st1)
    \<and> trace (world st1)
        = [Exchange (DriveFilesCreate foo_bar None ''Foo-Bar.png'' ''image/png'') Accepted,
           Exchange (EmojiAdd ''foo_bar'' ''f2'' ''animals'' ''CC0'' False False) rep]
    \<and> ''foo_bar'' \<noteq> path_name foo_bar"
proof -
  let ?st = "fresh \<lparr>remote = silent\<lparr>upload_replies := [Success foo_file]\<rparr>, trace = []\<rparr>"
  have a: "answered (r_files_create scripted foo_bar None (path_name foo_bar)
                    (mime_type_of scripted (path_name foo_bar)))
           (r_elapse scripted RATE_LIMIT_WAIT) (remote (world ?st)) 0
         = Some (Success foo_file, silent)"
    by (simp add: answered_def scripted_steps next_reply_def rate_limited_def fresh_def
        silent_def)
  have d: "CHR ''.'' \<in> set (path_name foo_bar)"
    by (simp add: names_of_examples)
  from upload_keeps_file_name [where emoji_dict = Map.empty and opts = opts0,
      OF names_of_examples(3) _ a]
  obtain r st1 more rep where
    u: "upload_emoji scripted opts0 Map.empty None foo_bar ?st = Some (r, st1)"
    and t: "trace (world st1)
             = trace (world ?st)
               @ retry_events (DriveFilesCreate foo_bar None (path_name foo_bar)
                                (mime_type_of scripted (path_name foo_bar))) 0
               @ Exchange (DriveFilesCreate foo_bar None (path_name foo_bar)
                            (mime_type_of scripted (path_name foo_bar)))
                   (reply_of (Success foo_file)) # more"
    and m: "more = [Exchange (EmojiAdd ''foo_bar'' (df_id foo_file) (category opts0)
                      (license opts0) (sensitive opts0) (local_only opts0)) rep]"
    and n: "CHR ''.'' \<in> set (path_name foo_bar) \<longrightarrow> ''foo_bar'' \<noteq> path_name foo_bar"
    by auto
  from t m have "trace (world st1)
        = [Exchange (DriveFilesCreate foo_bar None ''Foo-Bar.png'' ''image/png'') Accepted,
           Exchange (EmojiAdd ''foo_bar'' ''f2'' ''animals'' ''CC0'' False False) rep]"
    by (simp add: fresh_def retry_events_def reply_of_def names_of_examples mime_of_examples
        foo_file_def opts0_def)
  with u n d show ?thesis by blast
qed

section \<open>Folder resolution\<close>

lemma creations_append: "creations (xs @ ys) = creations xs @ creations ys"
  by (simp add: creations_def)

lemma creations_Nil: "creations [] = []"
  by (simp add: creations_def)

lemma creations_Cons: "creations (ev # es) = created ev @ creations es"
  by (simp add: creations_def)

lemma creations_retry: "creations (retry_events rq n) = []"
  by (induction n) (simp_all add: retry_events_def creations_def)

lemma listed_first_retry:
  "listed_first (Some p) (retry_events (DriveFoldersCreate name p) n @ es)
     = listed_first (Some p) es"
  by (induction n) (simp_all add: retry_events_def)

lemma resolve_trace:
  "resolve_segments env segs pid fd w = Some (r, w1)
   \<Longrightarrow> \<exists>es. trace w1 = trace w @ es \<and> (\<forall>l. listed_first l es) \<and> subseq (creations es) segs"
proof (induction segs arbitrary: pid fd w)
  case Nil
  then show ?case by (simp add: creations_def)
next
  case (Cons seg rest)
  obtain data s1 where st: "r_folders env pid (remote w) = (data, s1)"
    by (cases "r_folders env pid (remote w)")
  let ?w1 = "\<lparr>remote = s1, trace = trace w @ [Exchange (DriveFolders pid) (reply_of data)]\<rparr>"
  have g: "drive_get_folders env pid w = (data, ?w1)"
    by (simp add: drive_get_folders_def exchange_def st)
  show ?case
  proof (cases data)
    case (Error e)
    with Cons.prems g have "w1 = ?w1" by simp
    then show ?thesis
      by (intro exI [of _ "[Exchange (DriveFolders pid) (reply_of data)]"])
         (simp add: creations_Cons creations_Nil)
  next
    case (Success folders)
    then have acc: "reply_of data = Accepted" by (simp add: reply_of_def)
    show ?thesis
    proof (cases "find_folder seg folders")
      case (Some f)
      with Cons.prems g Success
      have "resolve_segments env rest (Some (f_id f)) fd ?w1 = Some (r, w1)" by simp
      from Cons.IH [OF this] obtain es where
        es: "trace w1 = trace ?w1 @ es" "\<forall>l. listed_first l es" "subseq (creations es) rest"
        by blast
      then show ?thesis
        by (intro exI [of _ "Exchange (DriveFolders pid) Accepted # es"])
           (auto simp: acc creations_Cons intro: list_emb_Cons)
    next
      case None
      note nf = this
      show ?thesis
      proof (cases "create_drive_folder env seg pid ?w1")
        case None
        with Cons.prems g Success nf show ?thesis by simp
      next
        case (Some y)
        from create_answered [OF Some] obtain n cdata s2 where
          y: "y = (case cdata of Success f \<Rightarrow> Inr f | Error e \<Rightarrow> Inl (RuntimeError_body e),
                 settle (DriveFoldersCreate seg pid) (reply_of cdata) s2 n ?w1)"
          by blast
        let ?w2 = "settle (DriveFoldersCreate seg pid) (reply_of cdata) s2 n ?w1"
        show ?thesis
        proof (cases cdata)
          case (Error e)
          then have racc: "reply_of cdata = Refused (code e)" by (simp add: reply_of_def)
          from Error Cons.prems g Success nf Some y have "w1 = ?w2" by simp
          then show ?thesis
            by (intro exI [of _ "Exchange (DriveFolders pid) Accepted
                  # retry_events (DriveFoldersCreate seg pid) n
                  @ [Exchange (DriveFoldersCreate seg pid) (reply_of cdata)]"])
               (simp add: settle_def acc racc creations_Cons creations_append creations_Nil
                  creations_retry listed_first_retry)
        next
          case (Success f)
          then have racc: "reply_of cdata = Accepted" by (simp add: reply_of_def)
          from Success Cons.prems g \<open>data = Success folders\<close> nf Some y
          have "resolve_segments env rest (Some (f_id f)) (Some f) ?w2 = Some (r, w1)" by simp
          from Cons.IH [OF this] obtain es where
            es: "trace w1 = trace ?w2 @ es" "\<forall>l. listed_first l es" "subseq (creations es) rest"
            by blast
          then show ?thesis
            by (intro exI [of _ "Exchange (DriveFolders pid) Accepted
                  # retry_events (DriveFoldersCreate seg pid) n
                  @ Exchange (DriveFoldersCreate seg pid) Accepted # es"])
               (simp add: settle_def acc racc creations_Cons creations_append creations_Nil
                  creations_retry listed_first_retry)
        qed
      qed
    qed
  qed
qed

lemma find_folder_append:
  "find_folder nm (xs @ ys) =
     (case find_folder nm xs of None \<Rightarrow> find_folder nm ys | Some f \<Rightarrow> Some f)"
  by (induction xs) auto

lemma keeps_refl: "keeps t t"
  by (simp add: keeps_def)

lemma keeps_trans: "keeps t1 t2 \<Longrightarrow> keeps t2 t3 \<Longrightarrow> keeps t1 t3"
  by (simp add: keeps_def)

lemma listing_reads:
  assumes "drive_get_folders env pid w = (data, w1)"
  shows "w1 = \<lparr>remote = snd (r_folders env pid (remote w)),
               trace = trace w @ [Exchange (DriveFolders pid) (reply_of data)]\<rparr>
       \<and> lookup env (remote w) pid nm
           = (case data of Success fs \<Rightarrow> Success (find_folder nm fs) | Error e \<Rightarrow> Error e)"
  using assms
  by (auto simp: drive_get_folders_def exchange_def lookup_def split: prod.splits)

lemma listing_keeps:
  assumes "faithful env" and "drive_get_folders env pid w = (data, w1)"
  shows "lookup env (remote w1) = lookup env (remote w)"
proof -
  from listing_reads [OF assms(2)]
  have "remote w1 = snd (r_folders env pid (remote w))" by simp
  with assms(1) show ?thesis by (simp add: faithful_def)
qed

lemma refusals_keep:
  assumes "faithful env"
  shows "refusals (r_folders_create env nm p) (r_elapse env k) n s = Some s'
         \<Longrightarrow> lookup env s' = lookup env s"
proof (induction n arbitrary: s)
  case 0
  then show ?case by simp
next
  case (Suc n)
  from Suc.prems obtain e s1 where
    st: "r_folders_create env nm p s = (Error e, s1)"
    and re: "refusals (r_folders_create env nm p) (r_elapse env k) n (r_elapse env k s1) = Some s'"
    by (auto split: prod.splits response.splits if_splits)
  from assms st have "lookup env s1 = lookup env s" by (simp add: faithful_def)
  moreover from assms have "lookup env (r_elapse env k s1) = lookup env s1"
    by (simp add: faithful_def)
  ultimately show ?case using Suc.IH [OF re] by simp
qed

lemma create_extends:
  assumes "faithful env" and "create_drive_folder env nm p w = Some (Inr f, w1)"
    and "lookup env (remote w) p nm = Success None"
  shows "lookup env (remote w1)
       = (\<lambda>q n'. if q = p \<and> n' = nm then Success (Some f) else lookup env (remote w) q n')"
proof -
  from create_answered [OF assms(2)] obtain n data s2 where
    a: "answered (r_folders_create env nm p) (r_elapse env RATE_LIMIT_WAIT) (remote w) n
          = Some (data, s2)"
    and y: "(Inr f, w1) = (case data of Success f \<Rightarrow> Inr f | Error e \<Rightarrow> Inl (RuntimeError_body e),
           settle (DriveFoldersCreate nm p) (reply_of data) s2 n w)"
    by blast
  from y have d: "data = Success f" and w1: "remote w1 = s2"
    by (auto simp: settle_def split: response.splits)
  from a d obtain s where
    r: "refusals (r_folders_create env nm p) (r_elapse env RATE_LIMIT_WAIT) n (remote w) = Some s"
    and c: "r_folders_create env nm p s = (Success f, s2)"
    by (auto simp: answered_iff)
  from refusals_keep [OF assms(1) r] have k: "lookup env s = lookup env (remote w)" .
  with assms(3) have "lookup env s p nm = Success None" by simp
  with assms(1) c have e: "lookup env s2
      = (\<lambda>q n'. if q = p \<and> n' = nm then Success (Some f) else lookup env s q n')"
    unfolding faithful_def by blast
  show ?thesis unfolding w1 e k ..
qed

lemma resolve_records:
  assumes "faithful env"
  shows "resolve_segments env segs pid fd w = Some (Inr (p1, fd1), w1)
         \<Longrightarrow> walk (lookup env (remote w1)) segs pid = Some p1
           \<and> keeps (lookup env (remote w)) (lookup env (remote w1))"
proof (induction segs arbitrary: pid fd w)
  case Nil
  then show ?case by (simp add: keeps_refl)
next
  case (Cons seg rest)
  obtain data wa where g: "drive_get_folders env pid w = (data, wa)"
    by (cases "drive_get_folders env pid w")
  note ka = listing_keeps [OF assms g]
  from Cons.prems g obtain folders where d: "data = Success folders"
    by (cases data) auto
  from listing_reads [OF g, of seg] d
  have lk: "lookup env (remote w) pid seg = Success (find_folder seg folders)" by simp
  show ?case
  proof (cases "find_folder seg folders")
    case (Some f)
    with Cons.prems g d
    have "resolve_segments env rest (Some (f_id f)) fd wa = Some (Inr (p1, fd1), w1)" by simp
    from Cons.IH [OF this] have
      wk: "walk (lookup env (remote w1)) rest (Some (f_id f)) = Some p1"
      and kp: "keeps (lookup env (remote wa)) (lookup env (remote w1))"
      by simp_all
    from lk Some ka have "lookup env (remote wa) pid seg = Success (Some f)" by simp
    with kp have "lookup env (remote w1) pid seg = Success (Some f)"
      by (simp add: keeps_def)
    with wk kp ka show ?thesis by simp
  next
    case None
    note nf = this
    from Cons.prems g d nf obtain f wb where
      c: "create_drive_folder env seg pid wa = Some (Inr f, wb)"
      and rec: "resolve_segments env rest (Some (f_id f)) (Some f) wb = Some (Inr (p1, fd1), w1)"
      by (auto split: option.splits sum.splits prod.splits)
    from lk nf ka have "lookup env (remote wa) pid seg = Success None" by simp
    from create_extends [OF assms c this]
    have ext: "lookup env (remote wb)
       = (\<lambda>q n'. if q = pid \<and> n' = seg then Success (Some f) else lookup env (remote wa) q n')" .
    from Cons.IH [OF rec] have
      wk: "walk (lookup env (remote w1)) rest (Some (f_id f)) = Some p1"
      and kp: "keeps (lookup env (remote wb)) (lookup env (remote w1))"
      by simp_all
    from ext have "lookup env (remote wb) pid seg = Success (Some f)" by simp
    with kp have here: "lookup env (remote w1) pid seg = Success (Some f)"
      by (simp add: keeps_def)
    from ext \<open>lookup env (remote wa) pid seg = Success None\<close>
    have "keeps (lookup env (remote wa)) (lookup env (remote wb))"
      by (auto simp: keeps_def)
    with kp ka have "keeps (lookup env (remote w)) (lookup env (remote w1))"
      by (auto intro: keeps_trans)
    with wk here show ?thesis by simp
  qed
qed

lemma resolve_again:
  assumes "faithful env"
  shows "walk (lookup env (remote w)) segs pid = Some p1
         \<Longrightarrow> \<exists>w1 ps. resolve_segments env segs pid fd w = Some (Inr (p1, fd), w1)
               \<and> lookup env (remote w1) = lookup env (remote w)
               \<and> trace w1 = trace w @ map (\<lambda>p. Exchange (DriveFolders p) Accepted) ps
               \<and> length ps = length segs"
proof (induction segs arbitrary: pid w)
  case Nil
  then show ?case by simp
next
  case (Cons seg rest)
  obtain data wa where g: "drive_get_folders env pid w = (data, wa)"
    by (cases "drive_get_folders env pid w")
  note ka = listing_keeps [OF assms g]
  from Cons.prems obtain f where
    lk: "lookup env (remote w) pid seg = Success (Some f)"
    and wk: "walk (lookup env (remote w)) rest (Some (f_id f)) = Some p1"
    by (auto split: response.splits option.splits)
  from listing_reads [OF g, of seg] lk obtain folders where
    d: "data = Success folders" and ff: "find_folder seg folders = Some f"
    and wa: "wa = \<lparr>remote = snd (r_folders env pid (remote w)),
               trace = trace w @ [Exchange (DriveFolders pid) Accepted]\<rparr>"
    by (cases data) (auto simp: reply_of_def)
  from wk ka have "walk (lookup env (remote wa)) rest (Some (f_id f)) = Some p1" by simp
  from Cons.IH [OF this] obtain w1 ps where
    r: "resolve_segments env rest (Some (f_id f)) fd wa = Some (Inr (p1, fd), w1)"
    and l: "lookup env (remote w1) = lookup env (remote wa)"
    and t: "trace w1 = trace wa @ map (\<lambda>p. Exchange (DriveFolders p) Accepted) ps"
    and n: "length ps = length rest"
    by blast
  from g d ff r have "resolve_segments env (seg # rest) pid fd w = Some (Inr (p1, fd), w1)"
    by simp
  moreover from l ka have "lookup env (remote w1) = lookup env (remote w)" by simp
  moreover from t wa have "trace w1 = trace w @ map (\<lambda>p. Exchange (DriveFolders p) Accepted) (pid # ps)"
    by simp
  moreover from n have "length (pid # ps) = length (seg # rest)" by simp
  ultimately show ?case by blast
qed

lemma listings_create_nothing:
  "creations (map (\<lambda>p. Exchange (DriveFolders p) Accepted) ps) = []"
  "filter is_creation (map (\<lambda>p. Exchange (DriveFolders p) Accepted) ps) = []"
  by (induction ps) (simp_all add: creations_def)

lemma show_keeps:
  assumes "faithful env" and "drive_show_folders env p w = (data, w1)"
  shows "lookup env (remote w1) = lookup env (remote w)"
    and "trace w1 = trace w @ [Exchange (DriveFoldersShow p) (reply_of data)]"
proof -
  from assms(2) have "remote w1 = snd (r_folders_show env p (remote w))"
    and t: "trace w1 = trace w @ [Exchange (DriveFoldersShow p) (reply_of data)]"
    by (auto simp: drive_show_folders_def exchange_def split: prod.splits)
  with assms(1) show "lookup env (remote w1) = lookup env (remote w)"
    by (simp add: faithful_def)
  from t show "trace w1 = trace w @ [Exchange (DriveFoldersShow p) (reply_of data)]" .
qed

lemma path_again:
  assumes "faithful env" and "create_drive_folder_path env path w = Some (Inr data, w1)"
  shows "\<exists>data2 w2 es1 ps p1.
           create_drive_folder_path env path w1 = Some (Inr data2, w2)
         \<and> trace w1 = trace w @ es1
         \<and> trace w2 = trace w1 @ map (\<lambda>p. Exchange (DriveFolders p) Accepted) ps
                         @ [Exchange (DriveFoldersShow p1) (reply_of data2)]
         \<and> length ps = length (py_split CHR ''/'' path)
         \<and> subseq (creations es1) (py_split CHR ''/'' path)"
proof -
  let ?segs = "py_split CHR ''/'' path"
  from assms(2) obtain p1 fdo wr where
    r: "resolve_segments env ?segs None None w = Some (Inr (p1, fdo), wr)"
    by (auto simp: create_drive_folder_path_def split: option.splits sum.splits prod.splits)
  from resolve_trace [OF r] obtain es where
    es: "trace wr = trace w @ es" "subseq (creations es) ?segs"
    by blast
  from resolve_records [OF assms(1) r]
  have wk: "walk (lookup env (remote wr)) ?segs None = Some p1" by simp
  have "lookup env (remote w1) = lookup env (remote wr)
      \<and> (\<exists>es1. trace w1 = trace w @ es1 \<and> creations es1 = creations es)"
  proof (cases fdo)
    case (Some fd)
    with assms(2) r have "w1 = wr" by (simp add: create_drive_folder_path_def)
    with es show ?thesis by simp
  next
    case None
    with assms(2) r have s: "drive_show_folders env p1 wr = (data, w1)"
      by (auto simp: create_drive_folder_path_def split: prod.splits)
    from show_keeps [OF assms(1) s] es(1)
    have "lookup env (remote w1) = lookup env (remote wr)"
      and "trace w1 = trace w @ (es @ [Exchange (DriveFoldersShow p1) (reply_of data)])"
      by simp_all
    moreover have "creations (es @ [Exchange (DriveFoldersShow p1) (reply_of data)]) = creations es"
      by (simp add: creations_def)
    ultimately show ?thesis by blast
  qed
  then obtain es1 where
    l: "lookup env (remote w1) = lookup env (remote wr)"
    and t1: "trace w1 = trace w @ es1" and c1: "creations es1 = creations es"
    by blast
  from wk l have "walk (lookup env (remote w1)) ?segs None = Some p1" by simp
  from resolve_again [OF assms(1) this, of None] obtain w1' ps where
    r2: "resolve_segments env ?segs None None w1 = Some (Inr (p1, None), w1')"
    and t2: "trace w1' = trace w1 @ map (\<lambda>p. Exchange (DriveFolders p) Accepted) ps"
    and n: "length ps = length ?segs"
    by blast
  obtain data2 w2 where s2: "drive_show_folders env p1 w1' = (data2, w2)"
    by (cases "drive_show_folders env p1 w1'")
  from r2 s2 have "create_drive_folder_path env path w1 = Some (Inr data2, w2)"
    by (simp add: create_drive_folder_path_def)
  moreover from show_keeps(2) [OF assms(1) s2] t2
  have "trace w2 = trace w1 @ map (\<lambda>p. Exchange (DriveFolders p) Accepted) ps
                         @ [Exchange (DriveFoldersShow p1) (reply_of data2)]"
    by simp
  ultimately show ?thesis using t1 n c1 es(2) by auto
qed

text \<open>
  C8. In every run of the resolver, each creation request comes after the listing of
  the same parent, with only attempts of that creation and sleeps in between, and
  the folders created are a subsequence of the segments: at most one for each. A
  segment found in the listing is not created: the resolver goes on with the found
  folder's id. Against a service that keeps its folders, resolving the path a second
  time sends one listing for each segment and one show request, and no creation request, so
  both resolutions together create at most one folder for each segment.
\<close>

theorem folder_resolution_idempotent:
  "(resolve_segments env segs parent_id folder_data w = Some (r, wr)
      \<longrightarrow> (\<exists>es. trace wr = trace w @ es \<and> listed_first None es \<and> subseq (creations es) segs))
   \<and> (r_folders env parent_id (remote w) = (Success folders, s1)
        \<and> find_folder folder folders = Some f
      \<longrightarrow> resolve_segments env (folder # rest) parent_id folder_data w
          = resolve_segments env rest (Some (f_id f)) folder_data
              \<lparr>remote = s1, trace = trace w @ [Exchange (DriveFolders parent_id) Accepted]\<rparr>)
   \<and> (faithful env \<and> create_drive_folder_path env path w = Some (Inr data, w1)
      \<longrightarrow> (\<exists>data2 w2 es1 es2 ps p1.
             create_drive_folder_path env path w1 = Some (Inr data2, w2)
           \<and> trace w1 = trace w @ es1 \<and> trace w2 = trace w1 @ es2
           \<and> es2 = map (\<lambda>p. Exchange (DriveFolders p) Accepted) ps
                     @ [Exchange (DriveFoldersShow p1) (reply_of data2)]
           \<and> length ps = length (py_split CHR ''/'' path)
           \<and> filter is_creation es2 = []
           \<and> subseq (creations (es1 @ es2)) (py_split CHR ''/'' path)))"
proof (intro conjI impI)
  assume "resolve_segments env segs parent_id folder_data w = Some (r, wr)"
  from resolve_trace [OF this]
  show "\<exists>es. trace wr = trace w @ es \<and> listed_first None es \<and> subseq (creations es) segs"
    by blast
next
  assume "r_folders env parent_id (remote w) = (Success folders, s1)
        \<and> find_folder folder folders = Some f"
  then show "resolve_segments env (folder # rest) parent_id folder_data w
          = resolve_segments env rest (Some (f_id f)) folder_data
              \<lparr>remote = s1, trace = trace w @ [Exchange (DriveFolders parent_id) Accepted]\<rparr>"
    by (simp add: drive_get_folders_def exchange_def reply_of_def)
next
  assume "faithful env \<and> create_drive_folder_path env path w = Some (Inr data, w1)"
  then have f: "faithful env" and p: "create_drive_folder_path env path w = Some (Inr data, w1)"
    by simp_all
  from path_again [OF f p] obtain data2 w2 es1 ps p1 where
    a: "create_drive_folder_path env path w1 = Some (Inr data2, w2)"
    and t1: "trace w1 = trace w @ es1"
    and t2: "trace w2 = trace w1 @ map (\<lambda>p. Exchange (DriveFolders p) Accepted) ps
                         @ [Exchange (DriveFoldersShow p1) (reply_of data2)]"
    and n: "length ps = length (py_split CHR ''/'' path)"
    and c: "subseq (creations es1) (py_split CHR ''/'' path)"
    by blast
  let ?es2 = "map (\<lambda>p. Exchange (DriveFolders p) Accepted) ps
                @ [Exchange (DriveFoldersShow p1) (reply_of data2)]"
  have "filter is_creation ?es2 = []"
    by (simp add: listings_create_nothing)
  moreover have "creations (es1 @ ?es2) = creations es1"
    by (simp add: creations_append listings_create_nothing creations_Cons creations_Nil)
  ultimately show "\<exists>data2 w2 es1 es2 ps p1.
             create_drive_folder_path env path w1 = Some (Inr data2, w2)
           \<and> trace w1 = trace w @ es1 \<and> trace w2 = trace w1 @ es2
           \<and> es2 = map (\<lambda>p. Exchange (DriveFolders p) Accepted) ps
                     @ [Exchange (DriveFoldersShow p1) (reply_of data2)]
           \<and> length ps = length (py_split CHR ''/'' path)
           \<and> filter is_creation es2 = []
           \<and> subseq (creations (es1 @ es2)) (py_split CHR ''/'' path)"
    using a t1 t2 n c by (intro exI [of _ data2] exI [of _ w2] exI [of _ es1] exI [of _ ?es2]
        exI [of _ ps] exI [of _ p1]) simp
qed

lemma store_lookup:
  "lookup folder_store s p nm = Success (find_folder nm (filter (\<lambda>f. f_parentId f = p) s))"
  by (simp add: lookup_def folder_store_def)

lemma store_steps:
  "r_folders folder_store p s = (Success (filter (\<lambda>f. f_parentId f = p) s), s)"
  "r_folders_create folder_store nm p s = (Success (new_folder nm p), s @ [new_folder nm p])"
  "snd (r_folders_show folder_store p s) = s"
  "r_elapse folder_store k s = s"
  by (simp_all add: folder_store_def)

lemma store_faithful: "faithful folder_store"
proof -
  have "lookup folder_store (s @ [new_folder name p])
      = (\<lambda>q nm. if q = p \<and> nm = name then Success (Some (new_folder name p))
                 else lookup folder_store s q nm)"
    if "lookup folder_store s p name = Success None" for s name p
  proof (intro ext)
    fix q nm
    from that have n: "find_folder name (filter (\<lambda>f. f_parentId f = p) s) = None"
      by (simp add: store_lookup)
    show "lookup folder_store (s @ [new_folder name p]) q nm
      = (if q = p \<and> nm = name then Success (Some (new_folder name p))
                 else lookup folder_store s q nm)"
      using n by (auto simp: store_lookup find_folder_append new_folder_def split: option.splits)
  qed
  then show ?thesis
    unfolding faithful_def by (auto simp: store_steps)
qed

lemma store_list:
  "drive_get_folders folder_store p w
     = (Success (filter (\<lambda>f. f_parentId f = p) (remote w)),
        \<lparr>remote = remote w, trace = trace w @ [listing p]\<rparr>)"
  by (simp add: drive_get_folders_def exchange_def store_steps reply_of_def listing_def)

lemma store_create:
  "create_drive_folder folder_store nm p w
     = Some (Inr (new_folder nm p),
         \<lparr>remote = remote w @ [new_folder nm p],
          trace = trace w @ [Exchange (DriveFoldersCreate nm p) Accepted]\<rparr>)"
proof -
  have "answered (r_folders_create folder_store nm p) (r_elapse folder_store RATE_LIMIT_WAIT)
          (remote w) 0 = Some (Success (new_folder nm p), remote w @ [new_folder nm p])"
    by (simp add: answered_def store_steps rate_limited_def)
  from create_settles [OF this] show ?thesis
    by (simp add: settle_def retry_events_def reply_of_def)
qed

lemma a_b_split: "py_split CHR ''/'' ''a/b'' = [''a'', ''b'']"
  by simp

lemma a_b_first:
  "resolve_segments folder_store [''a'', ''b''] None None \<lparr>remote = [], trace = []\<rparr>
     = Some (Inr (Some ''/a/b'', Some (new_folder ''b'' (Some ''/a''))), a_b_resolved)"
  "create_drive_folder_path folder_store ''a/b'' \<lparr>remote = [], trace = []\<rparr>
     = Some (Inr (Success (new_folder ''b'' (Some ''/a''))), a_b_resolved)"
proof -
  show r: "resolve_segments folder_store [''a'', ''b''] None None \<lparr>remote = [], trace = []\<rparr>
     = Some (Inr (Some ''/a/b'', Some (new_folder ''b'' (Some ''/a''))), a_b_resolved)"
    by (simp add: store_list store_create new_folder_def a_b_resolved_def)
  then show "create_drive_folder_path folder_store ''a/b'' \<lparr>remote = [], trace = []\<rparr>
     = Some (Inr (Success (new_folder ''b'' (Some ''/a''))), a_b_resolved)"
    by (simp add: create_drive_folder_path_def a_b_split del: py_split.simps)
qed

theorem folder_resolution_idempotent_witness:
  "(\<exists>es. trace a_b_resolved = [] @ es \<and> listed_first None es \<and> subseq (creations es) [''a'', ''b''])
   \<and> resolve_segments folder_store [''a'', ''b''] None None a_b_resolved
       = resolve_segments folder_store [''b''] (Some ''/a'') None
           \<lparr>remote = remote a_b_resolved, trace = trace a_b_resolved @ [listing None]\<rparr>
   \<and> (\<exists>data2 w2 es2.
         create_drive_folder_path folder_store ''a/b'' a_b_resolved = Some (Inr data2, w2)
       \<and> trace w2 = trace a_b_resolved @ es2
       \<and> filter is_creation es2 = [])"
proof -
  note t = folder_resolution_idempotent [where env = folder_store and path = "''a/b''"
      and ?w1.0 = a_b_resolved and data = "Success (new_folder ''b'' (Some ''/a''))"]
  from t [where w = "\<lparr>remote = [], trace = []\<rparr>" and segs = "[''a'', ''b'']"
      and parent_id = None and folder_data = None and wr = a_b_resolved] a_b_first(1)
  have one: "\<exists>es. trace a_b_resolved = [] @ es \<and> listed_first None es
      \<and> subseq (creations es) [''a'', ''b'']"
    by simp
  have l: "r_folders folder_store None (remote a_b_resolved)
        = (Success [new_folder ''a'' None], remote a_b_resolved)
      \<and> find_folder ''a'' [new_folder ''a'' None] = Some (new_folder ''a'' None)"
    by (simp add: store_steps a_b_resolved_def new_folder_def)
  from t [where w = a_b_resolved and parent_id = None and folders = "[new_folder ''a'' None]"
      and ?s1.0 = "remote a_b_resolved" and folder = "''a''" and f = "new_folder ''a'' None"
      and rest = "[''b'']" and folder_data = None] l
  have two: "resolve_segments folder_store [''a'', ''b''] None None a_b_resolved
       = resolve_segments folder_store [''b''] (Some ''/a'') None
           \<lparr>remote = remote a_b_resolved, trace = trace a_b_resolved @ [listing None]\<rparr>"
    by (simp add: new_folder_def listing_def)
  from t [where w = "\<lparr>remote = [], trace = []\<rparr>"] store_faithful a_b_first(2)
  have three: "\<exists>data2 w2 es2.
         create_drive_folder_path folder_store ''a/b'' a_b_resolved = Some (Inr data2, w2)
       \<and> trace w2 = trace a_b_resolved @ es2
       \<and> filter is_creation es2 = []"
    by blast
  from one two three show ?thesis by blast
qed

section \<open>The record the resolver returns\<close>

lemma resolve_append:
  "resolve_segments env (xs @ ys) pid fd w =
     (case resolve_segments env xs pid fd w of
        None \<Rightarrow> None
      | Some (Inl err, w1) \<Rightarrow> Some (Inl err, w1)
      | Some (Inr (p, fd1), w1) \<Rightarrow> resolve_segments env ys p fd1 w1)"
proof (induction xs arbitrary: pid fd w)
  case Nil
  show ?case by simp
next
  case (Cons x xs)
  show ?case
    by (simp add: Cons split: prod.splits response.splits option.splits sum.splits)
qed

text \<open>When no segment is created, the record is the reply to one show request for the
  last folder found, sent after the listings.\<close>

lemma all_found_shows_last:
  assumes "faithful env"
    and "walk (lookup env (remote w)) (py_split CHR ''/'' path) None = Some p1"
  shows "\<exists>data w2 ps.
           create_drive_folder_path env path w = Some (Inr data, w2)
         \<and> trace w2 = trace w @ map (\<lambda>p. Exchange (DriveFolders p) Accepted) ps
                         @ [Exchange (DriveFoldersShow p1) (reply_of data)]
         \<and> length ps = length (py_split CHR ''/'' path)"
proof -
  from resolve_again [OF assms, of None] obtain w1 ps where
    r: "resolve_segments env (py_split CHR ''/'' path) None None w = Some (Inr (p1, None), w1)"
    and l: "lookup env (remote w1) = lookup env (remote w)"
    and t: "trace w1 = trace w @ map (\<lambda>p. Exchange (DriveFolders p) Accepted) ps"
    and n: "length ps = length (py_split CHR ''/'' path)"
    by blast
  obtain data w2 where s: "drive_show_folders env p1 w1 = (data, w2)"
    by (cases "drive_show_folders env p1 w1")
  then have a: "r_folders_show env p1 (remote w1) = (data, remote w2)"
    by (auto simp: drive_show_folders_def exchange_def split: prod.splits)
  from r s have b: "create_drive_folder_path env path w = Some (Inr data, w2)"
    by (simp add: create_drive_folder_path_def)
  from show_keeps(2) [OF assms(1) s] t
  have c: "trace w2 = trace w @ map (\<lambda>p. Exchange (DriveFolders p) Accepted) ps
                         @ [Exchange (DriveFoldersShow p1) (reply_of data)]"
    by simp
  show ?thesis
  proof (intro exI conjI)
    show "create_drive_folder_path env path w = Some (Inr data, w2)" by (rule b)
    show "trace w2 = trace w @ map (\<lambda>p. Exchange (DriveFolders p) Accepted) ps
                         @ [Exchange (DriveFoldersShow p1) (reply_of data)]" by (rule c)
    show "length ps = length (py_split CHR ''/'' path)" by (rule n)
  qed
qed

text \<open>When the last segment is created, the record is the reply to that creation, and
  no show request is sent.\<close>

lemma last_created_is_returned:
  assumes "py_split CHR ''/'' path = before @ [folder]"
    and "resolve_segments env before None None w = Some (Inr (parent_id, folder_data), w1)"
    and "drive_get_folders env parent_id w1 = (Success folders, w2)"
    and "find_folder folder folders = None"
    and "create_drive_folder env folder parent_id w2 = Some (Inr data, w3)"
  shows "create_drive_folder_path env path w = Some (Inr (Success data), w3)"
  using assms
  by (simp add: create_drive_folder_path_def resolve_append del: py_split.simps)

text \<open>
  C1, where the code leaves the claim. The root has no folder \<open>a\<close>, the creation of
  \<open>a\<close> is accepted, and the listing of the new folder has a folder \<open>b\<close>: the resolver
  returns the record of \<open>a\<close>, the segment it created, not that of the last segment
  \<open>b\<close>, and sends no show request.
\<close>

theorem stale_record_after_creation:
  "create_drive_folder_path scripted ''a/b''
     \<lparr>remote = silent\<lparr>folders_replies := [Success [], Success [folder_b]],
                      create_replies := [Success folder_a]\<rparr>, trace = []\<rparr>
   = Some (Inr (Success folder_a),
       \<lparr>remote = silent,
        trace = [listing None, Exchange (DriveFoldersCreate ''a'' None) Accepted,
                 listing (Some ''1'')]\<rparr>)
   \<and> resolve_segments scripted (py_split CHR ''/'' ''a/b'') None None
       \<lparr>remote = silent\<lparr>folders_replies := [Success [], Success [folder_b]],
                        create_replies := [Success folder_a]\<rparr>, trace = []\<rparr>
     = Some (Inr (Some (f_id folder_b), Some folder_a),
         \<lparr>remote = silent,
          trace = [listing None, Exchange (DriveFoldersCreate ''a'' None) Accepted,
                   listing (Some ''1'')]\<rparr>)
   \<and> f_name folder_a = ''a'' \<and> f_name folder_b = ''b'' \<and> f_id folder_a \<noteq> f_id folder_b"
proof -
  let ?s0 = "silent\<lparr>folders_replies := [Success [], Success [folder_b]],
                      create_replies := [Success folder_a]\<rparr>"
  let ?s1 = "silent\<lparr>folders_replies := [Success [folder_b]], create_replies := [Success folder_a]\<rparr>"
  let ?s2 = "silent\<lparr>folders_replies := [Success [folder_b]]\<rparr>"
  let ?w1 = "\<lparr>remote = ?s1, trace = [listing None]\<rparr>"
  let ?w2 = "\<lparr>remote = ?s2, trace = [listing None, Exchange (DriveFoldersCreate ''a'' None) Accepted]\<rparr>"
  let ?w3 = "\<lparr>remote = silent, trace = [listing None, Exchange (DriveFoldersCreate ''a'' None) Accepted,
                 listing (Some ''1'')]\<rparr>"
  have g1: "drive_get_folders scripted None \<lparr>remote = ?s0, trace = []\<rparr> = (Success [], ?w1)"
    by (simp add: drive_get_folders_def exchange_def scripted_steps next_reply_def reply_of_def
        listing_def silent_def)
  have "answered (r_folders_create scripted ''a'' None) (r_elapse scripted RATE_LIMIT_WAIT)
          (remote ?w1) 0 = Some (Success folder_a, ?s2)"
    by (simp add: answered_def scripted_steps next_reply_def rate_limited_def silent_def)
  from create_settles [OF this]
  have c: "create_drive_folder scripted ''a'' None ?w1 = Some (Inr folder_a, ?w2)"
    by (simp add: settle_def retry_events_def reply_of_def)
  have g2: "drive_get_folders scripted (Some ''1'') ?w2 = (Success [folder_b], ?w3)"
    by (simp add: drive_get_folders_def exchange_def scripted_steps next_reply_def reply_of_def
        listing_def silent_def)
  have fa: "f_id folder_a = ''1''" "f_name folder_b = ''b''" "f_id folder_b = ''2''"
    by (simp_all add: folder_a_def folder_b_def)
  have r: "resolve_segments scripted [''a'', ''b''] None None \<lparr>remote = ?s0, trace = []\<rparr>
      = Some (Inr (Some ''2'', Some folder_a), ?w3)"
    by (simp add: g1 c g2 fa)
  then have "create_drive_folder_path scripted ''a/b'' \<lparr>remote = ?s0, trace = []\<rparr>
      = Some (Inr (Success folder_a), ?w3)"
    by (simp add: create_drive_folder_path_def a_b_split del: py_split.simps)
  moreover from r have "resolve_segments scripted (py_split CHR ''/'' ''a/b'') None None
      \<lparr>remote = ?s0, trace = []\<rparr> = Some (Inr (Some (f_id folder_b), Some folder_a), ?w3)"
    by (simp only: a_b_split fa)
  ultimately show ?thesis by (simp add: folder_a_def folder_b_def del: py_split.simps)
qed

end
